theory Spec2Isabelle
  imports Main "HOL-Library.AList"
begin

section \<open>Python values, objects and exceptions\<close>

text \<open>
  The module \<^verbatim>\<open>mixbox/fields.py\<close> is dynamically typed. Its values are embedded in
  one datatype. Sequences have identity and are mutated in place, so they live in a heap
  and a value refers to them by address. Classes are values too and are named by their
  qualified name; what a class does (membership test, construction, markers) is supplied
  by the run-time environment below.
\<close>

type_synonym addr = nat
type_synonym fid = nat
type_synonym eid = nat

datatype pyval =
    PNone
  | PBool bool
  | PInt int
  | PStr string
  | PClass string
  | PObj string nat
  | PFunc nat
  | PRef addr

text \<open>
  \<open>PObj c i\<close> is the instance number \<open>i\<close> of class \<open>c\<close>, \<open>PFunc n\<close> a callable,
  \<open>PRef a\<close> a reference to a heap sequence: a plain \<^verbatim>\<open>list\<close> or a \<^verbatim>\<open>_TypedList\<close>
  with its \<^verbatim>\<open>_type\<close> and its \<^verbatim>\<open>_inner\<close> list.
\<close>

datatype pyobj =
    OList "pyval list"
  | OTypedList pyval "pyval list"

fun inner :: "pyobj \<Rightarrow> pyval list" where
  "inner (OList xs) = xs"
| "inner (OTypedList t xs) = xs"

text \<open>
  Exceptions, with the data their messages are formatted from:
  \<^item> \<open>MustBe n t c\<close>: \<^verbatim>\<open>TypeError("%s must be a %s, not a %s" % (name, type_, type(value)))\<close>;
  \<^item> \<open>CantPut v c k t\<close>: \<^verbatim>\<open>ValueError("Can't put '{0}' ({1}) into a {2}. Expected a {3} object.")\<close>;
  \<^item> \<open>UnableToResolve r\<close>: \<^verbatim>\<open>ValueError("Unable to resolve class for '%s'" % classref)\<close>;
  \<^item> \<open>UnpackError\<close>: the \<^verbatim>\<open>ValueError\<close> of \<^verbatim>\<open>modname, classname = ...\<close> on a list that has
    not two elements;
  \<^item> \<open>AttributeError n\<close>: \<^verbatim>\<open>getattr\<close> on an object without the attribute \<open>n\<close>;
  \<^item> \<open>IsinstanceArg2\<close>: the \<^verbatim>\<open>TypeError\<close> of \<^verbatim>\<open>isinstance(x, t)\<close> when \<open>t\<close> is no class
    and no tuple of classes;
  \<^item> \<open>NotCallable\<close>: the \<^verbatim>\<open>TypeError\<close> of calling an object that is not callable;
  \<^item> \<open>Raised m\<close>: any exception raised by code outside this module (an import, a
    constructor, a hook).
\<close>

datatype exn =
    MustBe string pyval string
  | CantPut pyval string string pyval
  | UnableToResolve pyval
  | UnpackError
  | AttributeError string
  | IsinstanceArg2
  | NotCallable
  | IndexError
  | Raised string


section \<open>Field descriptors and the state\<close>

text \<open>
  The class of a descriptor. \<open>SubField n\<close> stands for a subclass of \<^verbatim>\<open>TypedField\<close> that
  overrides \<^verbatim>\<open>_clean\<close> only (\<^verbatim>\<open>BytesField\<close>, \<^verbatim>\<open>IntegerField\<close>, ...).
\<close>

datatype fcls = TypedField | IdField | IdrefField | SubField string

text \<open>
  \<^verbatim>\<open>self.listclass\<close> is \<^verbatim>\<open>list\<close> or \<^verbatim>\<open>functools.partial(_TypedList, type_)\<close>, with the
  \<^verbatim>\<open>type_\<close> argument of \<^verbatim>\<open>__init__\<close> as it was given.
\<close>

datatype listclass = ListClass | TypedListClass pyval

text \<open>
  The attributes \<^verbatim>\<open>__init__\<close> assigns. \<open>slot_type\<close>, \<open>slot_key_name\<close> and \<open>slot_factory\<close>
  are \<^verbatim>\<open>self._type\<close>, \<^verbatim>\<open>self._key_name\<close> and \<^verbatim>\<open>self._factory\<close>. A hook is \<^verbatim>\<open>None\<close>
  or a callable, named by its number.
\<close>

record field =
  cls :: fcls
  name :: string
  slot_type :: pyval
  slot_key_name :: pyval
  comparable :: bool
  multiple :: bool
  preset_hook :: "nat option"
  postset_hook :: "nat option"
  is_type_castable :: bool
  slot_factory :: pyval
  listclass :: listclass

text \<open>
  What the module does that a caller can observe besides its results: an import, and a
  call of a hook.
\<close>

datatype event =
    EvImport string
  | EvPreHook fid eid pyval
  | EvPostHook fid eid pyval

text \<open>
  The state: the descriptors (shared by all instances, and mutated when a type reference
  is resolved), the \<^verbatim>\<open>_fields\<close> dictionary of every entity (in insertion order, keyed
  by the identity of the descriptor), the heap of sequences with its next free address,
  and the trace of events.
\<close>

record state =
  descs :: "fid \<Rightarrow> field"
  ent_fields :: "eid \<Rightarrow> (fid \<times> pyval) list"
  heap :: "addr \<Rightarrow> pyobj"
  heap_next :: addr
  trace :: "event list"

text \<open>
  The run-time environment: everything the module calls and does not define. Classes,
  instances and functions are the objects that carry attributes of their own.
  \<^item> \<open>has_istypeof t\<close>: \<^verbatim>\<open>hasattr(t, "istypeof")\<close>; \<open>istypeof t h v\<close>: the truth value of
    \<^verbatim>\<open>t.istypeof(v)\<close>;
  \<^item> \<open>isinstance_of h v c\<close>: \<^verbatim>\<open>isinstance(v, c)\<close> for the class named \<open>c\<close>;
  \<^item> \<open>try_cast t\<close>: the truth value of \<^verbatim>\<open>getattr(t, "_try_cast", False)\<close>;
  \<^item> \<open>call_obj t h v\<close>: the call \<^verbatim>\<open>t(v)\<close> of a class (its constructor), a function or an
    instance;
  \<^item> \<open>obj_truthy c i\<close>: the truth value of an instance;
  \<^item> \<open>import_module m\<close>: \<^verbatim>\<open>importlib.import_module(m)\<close>, a module being a map from
    attribute names to values;
  \<^item> \<open>hook n e v s\<close>: the call of hook \<open>n\<close> on the entity \<open>e\<close> and the value \<open>v\<close>, which
    may raise and may change the state;
  \<^item> \<open>sub_clean n v\<close>: \<^verbatim>\<open>_clean\<close> as the subclass \<open>n\<close> overrides it;
  \<^item> \<open>typed_fields e\<close>: the attribute \<^verbatim>\<open>typed_fields\<close> of an entity, if it has one;
  \<^item> \<open>other_attr f k\<close>: an attribute of a descriptor that \<^verbatim>\<open>__init__\<close> does not assign
    and that is no property of \<^verbatim>\<open>TypedField\<close> (a method, an inherited attribute).
\<close>

record runtime =
  has_istypeof :: "pyval \<Rightarrow> bool"
  istypeof :: "pyval \<Rightarrow> (addr \<Rightarrow> pyobj) \<Rightarrow> pyval \<Rightarrow> bool"
  isinstance_of :: "(addr \<Rightarrow> pyobj) \<Rightarrow> pyval \<Rightarrow> string \<Rightarrow> bool"
  try_cast :: "pyval \<Rightarrow> bool"
  call_obj :: "pyval \<Rightarrow> (addr \<Rightarrow> pyobj) \<Rightarrow> pyval \<Rightarrow> exn + pyval"
  obj_truthy :: "string \<Rightarrow> nat \<Rightarrow> bool"
  import_module :: "string \<Rightarrow> exn + (string \<Rightarrow> pyval option)"
  hook :: "nat \<Rightarrow> eid \<Rightarrow> pyval \<Rightarrow> state \<Rightarrow> exn option \<times> state"
  sub_clean :: "string \<Rightarrow> pyval \<Rightarrow> exn + pyval"
  typed_fields :: "eid \<Rightarrow> fid list option"
  other_attr :: "fid \<Rightarrow> string \<Rightarrow> pyval option"

text \<open>
  A call returns a value or raises, and changes the state either way: what was done
  before an exception stays done.
\<close>

type_synonym 'a res = "(exn + 'a) \<times> state"

definition ret :: "'a \<Rightarrow> state \<Rightarrow> 'a res" where
  "ret x s = (Inr x, s)"

definition raise :: "exn \<Rightarrow> state \<Rightarrow> 'a res" where
  "raise e s = (Inl e, s)"

definition bnd :: "(state \<Rightarrow> 'a res) \<Rightarrow> ('a \<Rightarrow> state \<Rightarrow> 'b res) \<Rightarrow> state \<Rightarrow> 'b res" where
  "bnd m k s = (case m s of (Inl e, s') \<Rightarrow> (Inl e, s') | (Inr x, s') \<Rightarrow> k x s')"

definition log_event :: "event \<Rightarrow> state \<Rightarrow> state" where
  "log_event ev s = s\<lparr>trace := trace s @ [ev]\<rparr>"

text \<open>Python's truth value of an object, as \<^verbatim>\<open>if value:\<close> and \<^verbatim>\<open>not value\<close> test it.\<close>

fun truthy :: "runtime \<Rightarrow> (addr \<Rightarrow> pyobj) \<Rightarrow> pyval \<Rightarrow> bool" where
  "truthy rt h PNone = False"
| "truthy rt h (PBool b) = b"
| "truthy rt h (PInt n) = (n \<noteq> 0)"
| "truthy rt h (PStr s) = (s \<noteq> [])"
| "truthy rt h (PClass c) = True"
| "truthy rt h (PObj c i) = obj_truthy rt c i"
| "truthy rt h (PFunc n) = True"
| "truthy rt h (PRef a) = (inner (h a) \<noteq> [])"

text \<open>\<^verbatim>\<open>type(value)\<close>, by name.\<close>

fun type_of :: "(addr \<Rightarrow> pyobj) \<Rightarrow> pyval \<Rightarrow> string" where
  "type_of h PNone = ''NoneType''"
| "type_of h (PBool b) = ''bool''"
| "type_of h (PInt n) = ''int''"
| "type_of h (PStr s) = ''str''"
| "type_of h (PClass c) = ''type''"
| "type_of h (PObj c i) = c"
| "type_of h (PFunc n) = ''function''"
| "type_of h (PRef a) = (case h a of OList xs \<Rightarrow> ''list'' | OTypedList t xs \<Rightarrow> ''_TypedList'')"

text \<open>
  Attribute lookup, instance test and call on an arbitrary object in the place of a type.
  \<^verbatim>\<open>None\<close>, booleans, integers, strings and lists have neither an \<^verbatim>\<open>istypeof\<close> nor a
  \<^verbatim>\<open>_try_cast\<close> attribute and are not callable; the second argument of \<^verbatim>\<open>isinstance\<close>
  must be a class.
\<close>

fun has_attrs :: "pyval \<Rightarrow> bool" where
  "has_attrs (PClass c) = True"
| "has_attrs (PObj c i) = True"
| "has_attrs (PFunc n) = True"
| "has_attrs v = False"

definition hasattr_istypeof :: "runtime \<Rightarrow> pyval \<Rightarrow> bool" where
  "hasattr_istypeof rt t = (has_attrs t \<and> has_istypeof rt t)"

definition getattr_try_cast :: "runtime \<Rightarrow> pyval \<Rightarrow> bool" where
  "getattr_try_cast rt t = (has_attrs t \<and> try_cast rt t)"

definition call_istypeof :: "runtime \<Rightarrow> (addr \<Rightarrow> pyobj) \<Rightarrow> pyval \<Rightarrow> pyval \<Rightarrow> exn + bool" where
  "call_istypeof rt h t v =
     (if hasattr_istypeof rt t then Inr (istypeof rt t h v) else Inl (AttributeError ''istypeof''))"

definition py_isinstance :: "runtime \<Rightarrow> (addr \<Rightarrow> pyobj) \<Rightarrow> pyval \<Rightarrow> pyval \<Rightarrow> exn + bool" where
  "py_isinstance rt h v t =
     (case t of PClass c \<Rightarrow> Inr (isinstance_of rt h v c) | _ \<Rightarrow> Inl IsinstanceArg2)"

definition py_call :: "runtime \<Rightarrow> (addr \<Rightarrow> pyobj) \<Rightarrow> pyval \<Rightarrow> pyval \<Rightarrow> exn + pyval" where
  "py_call rt h t v = (if has_attrs t then call_obj rt t h v else Inl NotCallable)"

definition lift :: "exn + 'a \<Rightarrow> state \<Rightarrow> 'a res" where
  "lift r s = (r, s)"

section \<open>Resolving a class reference\<close>

text \<open>
  \<^verbatim>\<open>classpath.rsplit(".", 1)\<close>: the string split at its last dot, or the string alone
  when it has no dot.
\<close>

definition rsplit_dot :: "string \<Rightarrow> string list" where
  "rsplit_dot s =
     (let r = rev s;
          c = takeWhile (\<lambda>x. x \<noteq> CHR ''.'') r;
          m = dropWhile (\<lambda>x. x \<noteq> CHR ''.'') r
      in case m of [] \<Rightarrow> [s] | d # m' \<Rightarrow> [rev m', rev c])"

text \<open>
  \<^verbatim>\<open>_import_class\<close>: unpack the split into two names, import the module, get the class
  from it.
\<close>

definition import_class :: "runtime \<Rightarrow> string \<Rightarrow> state \<Rightarrow> pyval res" where
  "import_class rt classpath s =
     (case rsplit_dot classpath of
        [modname, classname] \<Rightarrow>
          (case import_module rt modname of
             Inl e \<Rightarrow> raise e (log_event (EvImport modname) s)
           | Inr module \<Rightarrow>
               (case module classname of
                  None \<Rightarrow> raise (AttributeError classname) (log_event (EvImport modname) s)
                | Some klass \<Rightarrow> ret klass (log_event (EvImport modname) s)))
      | _ \<Rightarrow> raise UnpackError s)"

text \<open>\<^verbatim>\<open>_resolve_class\<close>, in the order of its tests.\<close>

fun resolve_class :: "runtime \<Rightarrow> pyval \<Rightarrow> state \<Rightarrow> pyval res" where
  "resolve_class rt PNone s = ret PNone s"
| "resolve_class rt (PClass c) s = ret (PClass c) s"
| "resolve_class rt (PStr p) s = import_class rt p s"
| "resolve_class rt classref s = raise (UnableToResolve classref) s"

text \<open>
  The properties \<^verbatim>\<open>type_\<close> and \<^verbatim>\<open>factory\<close> of a descriptor: resolve the slot, store the
  result in the slot, return it. (An exception leaves the slot as it was.)
\<close>

definition set_slot_type :: "fid \<Rightarrow> pyval \<Rightarrow> state \<Rightarrow> state" where
  "set_slot_type f v s = s\<lparr>descs := (descs s)(f := (descs s f)\<lparr>slot_type := v\<rparr>)\<rparr>"

definition set_slot_factory :: "fid \<Rightarrow> pyval \<Rightarrow> state \<Rightarrow> state" where
  "set_slot_factory f v s = s\<lparr>descs := (descs s)(f := (descs s f)\<lparr>slot_factory := v\<rparr>)\<rparr>"

definition type_get :: "runtime \<Rightarrow> fid \<Rightarrow> state \<Rightarrow> pyval res" where
  "type_get rt f s =
     bnd (resolve_class rt (slot_type (descs s f))) (\<lambda>c s'. ret c (set_slot_type f c s')) s"

definition factory_get :: "runtime \<Rightarrow> fid \<Rightarrow> state \<Rightarrow> pyval res" where
  "factory_get rt f s =
     bnd (resolve_class rt (slot_factory (descs s f))) (\<lambda>c s'. ret c (set_slot_factory f c s')) s"

section \<open>The constructor of a descriptor\<close>

text \<open>
  \<^verbatim>\<open>TypedField.__init__\<close>. The marker \<^verbatim>\<open>_try_cast\<close> is read from the \<^verbatim>\<open>type_\<close> argument as
  it is given, and so is the truth value that chooses the list class.
\<close>

definition init_field ::
  "runtime \<Rightarrow> (addr \<Rightarrow> pyobj) \<Rightarrow> fcls \<Rightarrow> string \<Rightarrow> pyval \<Rightarrow> pyval \<Rightarrow> bool \<Rightarrow> bool \<Rightarrow>
   nat option \<Rightarrow> nat option \<Rightarrow> pyval \<Rightarrow> field" where
  "init_field rt h k nm ty kn cmp mult pre post fac =
     \<lparr> cls = k, name = nm, slot_type = ty, slot_key_name = kn, comparable = cmp,
       multiple = mult, preset_hook = pre, postset_hook = post,
       is_type_castable = getattr_try_cast rt ty, slot_factory = fac,
       listclass = (if truthy rt h ty then TypedListClass ty else ListClass) \<rparr>"

section \<open>Cleaning a value\<close>

text \<open>
  \<^verbatim>\<open>TypedField.check_type\<close>. Every \<^verbatim>\<open>self.type_\<close> in the source is a call of the
  property, so the model calls \<open>type_get\<close> as often as the source does.
\<close>

definition check_type :: "runtime \<Rightarrow> fid \<Rightarrow> pyval \<Rightarrow> state \<Rightarrow> bool res" where
  "check_type rt f v =
     bnd (type_get rt f) (\<lambda>t1 s1.
       if \<not> truthy rt (heap s1) t1 then ret True s1
       else bnd (type_get rt f) (\<lambda>t2 s2.
         if hasattr_istypeof rt t2
         then bnd (type_get rt f) (\<lambda>t3 s3. lift (call_istypeof rt (heap s3) t3 v) s3) s2
         else bnd (type_get rt f) (\<lambda>t3 s3. lift (py_isinstance rt (heap s3) v t3) s3) s2) s1)"

text \<open>\<^verbatim>\<open>TypedField._clean\<close>.\<close>

definition clean_base :: "runtime \<Rightarrow> fid \<Rightarrow> pyval \<Rightarrow> state \<Rightarrow> pyval res" where
  "clean_base rt f v s =
     (if v = PNone then ret PNone s
      else bnd (type_get rt f) (\<lambda>t1 s1.
        if t1 = PNone then ret v s1
        else bnd (check_type rt f v) (\<lambda>ok s2.
          if ok then ret v s2
          else if is_type_castable (descs s2 f)
          then bnd (type_get rt f) (\<lambda>t s3. lift (py_call rt (heap s3) t v) s3) s2
          else bnd (type_get rt f)
                 (\<lambda>t s3. raise (MustBe (name (descs s3 f)) t (type_of (heap s3) v)) s3) s2) s1) s)"

text \<open>\<^verbatim>\<open>self._clean\<close>, dispatched on the class of the descriptor.\<close>

definition clean :: "runtime \<Rightarrow> fid \<Rightarrow> pyval \<Rightarrow> state \<Rightarrow> pyval res" where
  "clean rt f v s =
     (case cls (descs s f) of
        SubField n \<Rightarrow> lift (sub_clean rt n v) s
      | _ \<Rightarrow> clean_base rt f v s)"

section \<open>Typed sequences\<close>

text \<open>\<^verbatim>\<open>list.insert\<close> and \<^verbatim>\<open>list.__setitem__\<close> with an integer index.\<close>

definition list_insert :: "'a list \<Rightarrow> int \<Rightarrow> 'a \<Rightarrow> 'a list" where
  "list_insert xs idx v =
     (let n = int (length xs);
          j = (if idx < 0 then max 0 (idx + n) else min idx n)
      in take (nat j) xs @ v # drop (nat j) xs)"

definition list_setitem :: "'a list \<Rightarrow> int \<Rightarrow> 'a \<Rightarrow> 'a list option" where
  "list_setitem xs key v =
     (let n = int (length xs);
          j = (if key < 0 then key + n else key)
      in if 0 \<le> j \<and> j < n then Some (xs[nat j := v]) else None)"

text \<open>\<^verbatim>\<open>_TypedList._is_valid\<close> and \<^verbatim>\<open>_TypedList._fix_value\<close>, for \<^verbatim>\<open>self._type = t\<close>.\<close>

definition is_valid :: "runtime \<Rightarrow> (addr \<Rightarrow> pyobj) \<Rightarrow> pyval \<Rightarrow> pyval \<Rightarrow> exn + bool" where
  "is_valid rt h t v =
     (if hasattr_istypeof rt t then call_istypeof rt h t v else py_isinstance rt h v t)"

definition fix_value :: "runtime \<Rightarrow> (addr \<Rightarrow> pyobj) \<Rightarrow> pyval \<Rightarrow> pyval \<Rightarrow> exn + pyval" where
  "fix_value rt h t v =
     (case py_call rt h t v of
        Inl e \<Rightarrow> Inl (CantPut v (type_of h v) ''_TypedList'' t)
      | Inr new_value \<Rightarrow> Inr new_value)"

definition valid_or_fixed :: "runtime \<Rightarrow> (addr \<Rightarrow> pyobj) \<Rightarrow> pyval \<Rightarrow> pyval \<Rightarrow> exn + pyval" where
  "valid_or_fixed rt h t v =
     (case is_valid rt h t v of
        Inl e \<Rightarrow> Inl e
      | Inr ok \<Rightarrow> if ok then Inr v else fix_value rt h t v)"

definition set_inner :: "addr \<Rightarrow> pyval list \<Rightarrow> state \<Rightarrow> state" where
  "set_inner a xs s =
     s\<lparr>heap := (heap s)(a := (case heap s a of OList ys \<Rightarrow> OList xs
                                             | OTypedList t ys \<Rightarrow> OTypedList t xs))\<rparr>"

text \<open>
  \<^verbatim>\<open>self.insert(idx, value)\<close> and \<^verbatim>\<open>self[key] = value\<close> on the sequence at the address
  \<open>self\<close>: the methods of \<^verbatim>\<open>_TypedList\<close> on a typed list, those of \<^verbatim>\<open>list\<close> on a plain one.
\<close>

definition insert_tl :: "runtime \<Rightarrow> addr \<Rightarrow> int \<Rightarrow> pyval \<Rightarrow> state \<Rightarrow> unit res" where
  "insert_tl rt self idx v s =
     (case heap s self of
        OList xs \<Rightarrow> ret () (set_inner self (list_insert xs idx v) s)
      | OTypedList t xs \<Rightarrow>
          if \<not> truthy rt (heap s) v then ret () s
          else (case valid_or_fixed rt (heap s) t v of
                  Inl e \<Rightarrow> raise e s
                | Inr nv \<Rightarrow> ret () (set_inner self (list_insert xs idx nv) s)))"

definition setitem :: "runtime \<Rightarrow> addr \<Rightarrow> int \<Rightarrow> pyval \<Rightarrow> state \<Rightarrow> unit res" where
  "setitem rt self key v s =
     (case heap s self of
        OList xs \<Rightarrow>
          (case list_setitem xs key v of
             None \<Rightarrow> raise IndexError s
           | Some ys \<Rightarrow> ret () (set_inner self ys s))
      | OTypedList t xs \<Rightarrow>
          (case valid_or_fixed rt (heap s) t v of
             Inl e \<Rightarrow> raise e s
           | Inr nv \<Rightarrow>
               (case list_setitem xs key nv of
                  None \<Rightarrow> raise IndexError s
                | Some ys \<Rightarrow> ret () (set_inner self ys s))))"

text \<open>
  \<^verbatim>\<open>MutableSequence.append\<close> is \<^verbatim>\<open>self.insert(len(self), value)\<close>, and
  \<^verbatim>\<open>MutableSequence.extend\<close> appends the values one by one.
\<close>

definition append_tl :: "runtime \<Rightarrow> addr \<Rightarrow> pyval \<Rightarrow> state \<Rightarrow> unit res" where
  "append_tl rt self v s = insert_tl rt self (int (length (inner (heap s self)))) v s"

fun extend_tl :: "runtime \<Rightarrow> addr \<Rightarrow> pyval list \<Rightarrow> state \<Rightarrow> unit res" where
  "extend_tl rt self [] s = ret () s"
| "extend_tl rt self (v # vs) s =
     (case append_tl rt self v s of
        (Inl e, s') \<Rightarrow> (Inl e, s')
      | (Inr u, s') \<Rightarrow> extend_tl rt self vs s')"

text \<open>
  Modelled from the spec: \<^verbatim>\<open>datautils.is_sequence\<close>, which this module imports, is "a
  predicate distinguishing iterable collection values from scalar values". The
  collections of the model are the heap sequences; strings are scalars.
\<close>

fun is_sequence :: "pyval \<Rightarrow> bool" where
  "is_sequence (PRef a) = True"
| "is_sequence v = False"

fun seq_items :: "(addr \<Rightarrow> pyobj) \<Rightarrow> pyval \<Rightarrow> pyval list" where
  "seq_items h (PRef a) = inner (h a)"
| "seq_items h v = []"

definition alloc :: "pyobj \<Rightarrow> state \<Rightarrow> addr \<times> state" where
  "alloc ob s = (heap_next s, s\<lparr>heap := (heap s)(heap_next s := ob), heap_next := Suc (heap_next s)\<rparr>)"

text \<open>\<^verbatim>\<open>_TypedList.__init__(self, type, *args)\<close>.\<close>

fun typed_list_fill :: "runtime \<Rightarrow> addr \<Rightarrow> pyval list \<Rightarrow> state \<Rightarrow> unit res" where
  "typed_list_fill rt self [] s = ret () s"
| "typed_list_fill rt self (item # items) s =
     (case (if is_sequence item then extend_tl rt self (seq_items (heap s) item) s
            else append_tl rt self item s) of
        (Inl e, s') \<Rightarrow> (Inl e, s')
      | (Inr u, s') \<Rightarrow> typed_list_fill rt self items s')"

definition typed_list_init :: "runtime \<Rightarrow> pyval \<Rightarrow> pyval list \<Rightarrow> state \<Rightarrow> pyval res" where
  "typed_list_init rt t args s =
     (case alloc (OTypedList t []) s of
        (a, s0) \<Rightarrow>
          (case typed_list_fill rt a args s0 of
             (Inl e, s') \<Rightarrow> (Inl e, s')
           | (Inr u, s') \<Rightarrow> (Inr (PRef a), s')))"

section \<open>Getting and setting a field\<close>

text \<open>
  \<^verbatim>\<open>self.listclass()\<close> and \<^verbatim>\<open>self.listclass(seq)\<close> for a sequence \<open>seq\<close> on the heap.
  \<^verbatim>\<open>list(seq)\<close> is a new list of the items of \<open>seq\<close>.
\<close>

definition call_listclass :: "runtime \<Rightarrow> listclass \<Rightarrow> addr option \<Rightarrow> state \<Rightarrow> pyval res" where
  "call_listclass rt lc arg s =
     (case lc of
        ListClass \<Rightarrow>
          (case alloc (OList (case arg of None \<Rightarrow> [] | Some b \<Rightarrow> inner (heap s b))) s of
             (a, s') \<Rightarrow> (Inr (PRef a), s'))
      | TypedListClass t \<Rightarrow>
          typed_list_init rt t (case arg of None \<Rightarrow> [] | Some b \<Rightarrow> [PRef b]) s)"

text \<open>
  \<^verbatim>\<open>self.listclass(self._clean(x) for x in value if x is not None)\<close>. The argument is a
  generator: \<^verbatim>\<open>list\<close> runs it to its end; \<^verbatim>\<open>_TypedList.__init__\<close> finds it sequence-like
  (it has \<^verbatim>\<open>__iter__\<close>) and extends itself from it, so that every item is cleaned and
  then appended before the next one is cleaned.
\<close>

fun clean_items :: "runtime \<Rightarrow> fid \<Rightarrow> pyval list \<Rightarrow> state \<Rightarrow> pyval list res" where
  "clean_items rt f [] s = (Inr [], s)"
| "clean_items rt f (x # xs) s =
     (if x = PNone then clean_items rt f xs s
      else (case clean rt f x s of
              (Inl e, s1) \<Rightarrow> (Inl e, s1)
            | (Inr c, s1) \<Rightarrow>
                (case clean_items rt f xs s1 of
                   (Inl e, s2) \<Rightarrow> (Inl e, s2)
                 | (Inr cs, s2) \<Rightarrow> (Inr (c # cs), s2))))"

fun extend_gen :: "runtime \<Rightarrow> fid \<Rightarrow> addr \<Rightarrow> pyval list \<Rightarrow> state \<Rightarrow> unit res" where
  "extend_gen rt f self [] s = (Inr (), s)"
| "extend_gen rt f self (x # xs) s =
     (if x = PNone then extend_gen rt f self xs s
      else (case clean rt f x s of
              (Inl e, s1) \<Rightarrow> (Inl e, s1)
            | (Inr c, s1) \<Rightarrow>
                (case append_tl rt self c s1 of
                   (Inl e, s2) \<Rightarrow> (Inl e, s2)
                 | (Inr u, s2) \<Rightarrow> extend_gen rt f self xs s2)))"

definition listclass_gen :: "runtime \<Rightarrow> fid \<Rightarrow> listclass \<Rightarrow> pyval list \<Rightarrow> state \<Rightarrow> pyval res" where
  "listclass_gen rt f lc items s =
     (case lc of
        ListClass \<Rightarrow>
          (case clean_items rt f items s of
             (Inl e, s1) \<Rightarrow> (Inl e, s1)
           | (Inr cs, s1) \<Rightarrow> (case alloc (OList cs) s1 of (a, s2) \<Rightarrow> (Inr (PRef a), s2)))
      | TypedListClass t \<Rightarrow>
          (case alloc (OTypedList t []) s of
             (a, s0) \<Rightarrow>
               (case extend_gen rt f a items s0 of
                  (Inl e, s1) \<Rightarrow> (Inl e, s1)
                | (Inr u, s1) \<Rightarrow> (Inr (PRef a), s1))))"

text \<open>
  The value \<^verbatim>\<open>TypedField.__set__\<close> stores. \<^verbatim>\<open>[self._clean(value)]\<close> is a list of its own
  on the heap.
\<close>

definition set_value :: "runtime \<Rightarrow> fid \<Rightarrow> pyval \<Rightarrow> state \<Rightarrow> pyval res" where
  "set_value rt f v s =
     (if multiple (descs s f) then
        (if v = PNone then call_listclass rt (listclass (descs s f)) None s
         else if \<not> is_sequence v then
           bnd (clean rt f v)
             (\<lambda>c s1. case alloc (OList [c]) s1 of
                       (a, s2) \<Rightarrow> call_listclass rt (listclass (descs s f)) (Some a) s2) s
         else listclass_gen rt f (listclass (descs s f)) (seq_items (heap s) v) s)
      else clean rt f v s)"

definition call_hook :: "runtime \<Rightarrow> nat option \<Rightarrow> eid \<Rightarrow> pyval \<Rightarrow> event \<Rightarrow> state \<Rightarrow> unit res" where
  "call_hook rt h e v ev s =
     (case h of
        None \<Rightarrow> (Inr (), s)
      | Some n \<Rightarrow>
          (case hook rt n e v s of
             (r, s') \<Rightarrow>
               ((case r of None \<Rightarrow> Inr () | Some ex \<Rightarrow> Inl ex),
                s'\<lparr>trace := trace s @ [ev]\<rparr>)))"

definition store :: "fid \<Rightarrow> eid \<Rightarrow> pyval \<Rightarrow> state \<Rightarrow> state" where
  "store f e v s = s\<lparr>ent_fields := (ent_fields s)(e := AList.update f v (ent_fields s e))\<rparr>"

text \<open>\<^verbatim>\<open>TypedField.__set__\<close>.\<close>

definition set_base :: "runtime \<Rightarrow> fid \<Rightarrow> eid \<Rightarrow> pyval \<Rightarrow> state \<Rightarrow> unit res" where
  "set_base rt f e v =
     bnd (set_value rt f v) (\<lambda>val.
       bnd (\<lambda>s. call_hook rt (preset_hook (descs s f)) e val (EvPreHook f e val) s) (\<lambda>u.
         bnd (\<lambda>s. ret () (store f e val s)) (\<lambda>u s.
           call_hook rt (postset_hook (descs s f)) e val (EvPostHook f e val) s)))"

text \<open>
  \<^verbatim>\<open>TypedField.__get__\<close>. Without an instance the descriptor itself is returned.
\<close>

datatype got = Descriptor fid | Value pyval

definition get_attr :: "fid \<Rightarrow> eid option \<Rightarrow> state \<Rightarrow> got \<times> state" where
  "get_attr f inst s =
     (case inst of
        None \<Rightarrow> (Descriptor f, s)
      | Some e \<Rightarrow>
          (case map_of (ent_fields s e) f of
             Some v \<Rightarrow> (Value v, s)
           | None \<Rightarrow>
               if multiple (descs s f)
               then (case alloc (OList []) s of (a, s1) \<Rightarrow> (Value (PRef a), store f e (PRef a) s1))
               else (Value PNone, s)))"

section \<open>Field utilities\<close>

text \<open>
  The second argument of \<^verbatim>\<open>isinstance\<close> in \<^verbatim>\<open>unset\<close>: the tuple \<^verbatim>\<open>types\<close> of the call, or
  the list \<^verbatim>\<open>[TypedField]\<close> that replaces an empty tuple. \<^verbatim>\<open>isinstance\<close> takes a class or a
  tuple of classes, and raises \<^verbatim>\<open>TypeError\<close> on a list.
\<close>

datatype classinfo = ClassTuple "fcls list" | ClassList "fcls list"

fun issubclass :: "fcls \<Rightarrow> fcls \<Rightarrow> bool" where
  "issubclass k TypedField = True"
| "issubclass k c = (k = c)"

fun isinstance_field :: "fcls \<Rightarrow> classinfo \<Rightarrow> exn + bool" where
  "isinstance_field k (ClassTuple ts) = Inr (\<exists>c \<in> set ts. issubclass k c)"
| "isinstance_field k (ClassList ts) = Inl IsinstanceArg2"

definition del_field :: "fid \<Rightarrow> eid \<Rightarrow> state \<Rightarrow> state" where
  "del_field f e s = s\<lparr>ent_fields := (ent_fields s)(e := AList.delete f (ent_fields s e))\<rparr>"

text \<open>
  The loop of \<^verbatim>\<open>unset\<close> over the generator \<^verbatim>\<open>remove\<close>: the instance test of a key runs
  when the loop reaches the key.
\<close>

fun unset_loop :: "eid \<Rightarrow> classinfo \<Rightarrow> fid list \<Rightarrow> state \<Rightarrow> unit res" where
  "unset_loop e ci [] s = (Inr (), s)"
| "unset_loop e ci (x # xs) s =
     (case isinstance_field (cls (descs s x)) ci of
        Inl ex \<Rightarrow> (Inl ex, s)
      | Inr b \<Rightarrow> unset_loop e ci xs (if b then del_field x e s else s))"

definition unset :: "eid \<Rightarrow> fcls list \<Rightarrow> state \<Rightarrow> unit res" where
  "unset e types s =
     unset_loop e (if types = [] then ClassList [TypedField] else ClassTuple types)
       (map fst (ent_fields s e)) s"

text \<open>\<^verbatim>\<open>IdField.__set__\<close> and \<^verbatim>\<open>IdrefField.__set__\<close>, and the assignment \<^verbatim>\<open>entity.f = v\<close>.\<close>

definition set_id :: "runtime \<Rightarrow> fid \<Rightarrow> eid \<Rightarrow> pyval \<Rightarrow> state \<Rightarrow> unit res" where
  "set_id rt f e v =
     bnd (set_base rt f e v) (\<lambda>u s. if truthy rt (heap s) v then unset e [IdrefField] s else ret () s)"

definition set_idref :: "runtime \<Rightarrow> fid \<Rightarrow> eid \<Rightarrow> pyval \<Rightarrow> state \<Rightarrow> unit res" where
  "set_idref rt f e v =
     bnd (set_base rt f e v) (\<lambda>u s. if truthy rt (heap s) v then unset e [IdField] s else ret () s)"

definition set_attr :: "runtime \<Rightarrow> fid \<Rightarrow> eid \<Rightarrow> pyval \<Rightarrow> state \<Rightarrow> unit res" where
  "set_attr rt f e v s =
     (case cls (descs s f) of
        IdField \<Rightarrow> set_id rt f e v s
      | IdrefField \<Rightarrow> set_idref rt f e v s
      | _ \<Rightarrow> set_base rt f e v s)"

section \<open>Searching the descriptors of an entity\<close>
















section \<open>The exclusion of Id and Idref values\<close>

text \<open>
  The docstrings of \<^verbatim>\<open>IdField.__set__\<close> and \<^verbatim>\<open>IdrefField.__set__\<close> name the values that
  unset the fields of the other kind: a value that ``is not None or an empty string''.
  \<open>drop_kind\<close> is the storage without the entries of a class, and a plain field is a
  single-valued field without a type and without hooks.
\<close>

definition nonempty :: "pyval \<Rightarrow> bool" where
  "nonempty v = (v \<noteq> PNone \<and> v \<noteq> PStr [])"

definition drop_kind :: "fcls \<Rightarrow> eid \<Rightarrow> state \<Rightarrow> state" where
  "drop_kind k e s =
     s\<lparr>ent_fields := (ent_fields s)(e :=
        filter (\<lambda>p. cls (descs s (fst p)) \<noteq> k) (ent_fields s e))\<rparr>"

definition plain_field :: "field \<Rightarrow> bool" where
  "plain_field d =
     (slot_type d = PNone \<and> \<not> multiple d \<and> preset_hook d = None \<and> postset_hook d = None)"

section \<open>A concrete environment\<close>

text \<open>
  An environment and a state to run the definitions on. The module \<^verbatim>\<open>pkg.mod\<close> has two
  classes. \<^verbatim>\<open>Box\<close> carries \<^verbatim>\<open>_try_cast = True\<close> and wraps any value: its instances are the
  only values that pass its instance test. \<^verbatim>\<open>Num\<close> has an \<^verbatim>\<open>istypeof\<close> that accepts the
  integers that are no booleans, and its constructor turns a boolean into an integer and
  raises on everything else that is no integer.
\<close>

definition demo_module :: "string \<Rightarrow> pyval option" where
  "demo_module n =
     (if n = ''Box'' then Some (PClass ''pkg.mod.Box'')
      else if n = ''Num'' then Some (PClass ''pkg.mod.Num'')
      else None)"

definition demo_call :: "pyval \<Rightarrow> (addr \<Rightarrow> pyobj) \<Rightarrow> pyval \<Rightarrow> exn + pyval" where
  "demo_call t h v =
     (if t = PClass ''pkg.mod.Box'' then Inr (PObj ''pkg.mod.Box'' 0)
      else if t = PClass ''pkg.mod.Num'' then
        (case v of
           PInt n \<Rightarrow> Inr (PInt n)
         | PBool b \<Rightarrow> Inr (PInt (if b then 1 else 0))
         | _ \<Rightarrow> Inl (Raised ''ValueError''))
      else Inl (Raised ''TypeError''))"

definition demo_rt :: runtime where
  "demo_rt =
     \<lparr> has_istypeof = (\<lambda>t. t = PClass ''pkg.mod.Num''),
       istypeof = (\<lambda>t h v. case v of PInt n \<Rightarrow> True | _ \<Rightarrow> False),
       isinstance_of = (\<lambda>h v c. case v of PObj d i \<Rightarrow> d = c | _ \<Rightarrow> False),
       try_cast = (\<lambda>t. t = PClass ''pkg.mod.Box''),
       call_obj = demo_call,
       obj_truthy = (\<lambda>c i. True),
       import_module = (\<lambda>m. if m = ''pkg.mod'' then Inr demo_module else Inl (Raised ''ImportError'')),
       hook = (\<lambda>n e v s. (None, s)),
       sub_clean = (\<lambda>n v. Inr v),
       typed_fields = (\<lambda>e. if e = 0 then Some [0, 1, 2, 3, 5] else Some [2, 8]),
       other_attr = (\<lambda>f k. None) \<rparr>"

definition no_heap :: "addr \<Rightarrow> pyobj" where
  "no_heap a = OList []"

text \<open>
  The descriptors of the demo entity class: \<open>0\<close> is \<^verbatim>\<open>IdField("id_")\<close>, \<open>1\<close> is
  \<^verbatim>\<open>IdrefField("idref")\<close>, \<open>2\<close> is \<^verbatim>\<open>TypedField("nums", type_=Num, multiple=True)\<close>, \<open>3\<close> is
  \<^verbatim>\<open>TypedField("box", type_="pkg.mod.Box", comparable=False)\<close>, \<open>4\<close> is
  \<^verbatim>\<open>IdField("boxid", type_=Box)\<close>, \<open>5\<close> is
  \<^verbatim>\<open>TypedField("items", comparable=False, multiple=True)\<close>, \<open>6\<close> is
  \<^verbatim>\<open>TypedField("hooked", multiple=True, preset_hook=h0, postset_hook=h1)\<close>, \<open>7\<close> is
  \<^verbatim>\<open>TypedField("made", factory="pkg.mod.Box")\<close>, \<open>8\<close> is
  \<^verbatim>\<open>TypedField("ghost", type_="nomod.Ghost")\<close>, whose module cannot be imported; every
  other number is \<^verbatim>\<open>TypedField("other")\<close>. The class of the entity \<open>0\<close> declares the fields
  \<open>0\<close>, \<open>1\<close>, \<open>2\<close>, \<open>3\<close> and \<open>5\<close>, the class of every other entity the fields \<open>2\<close> and \<open>8\<close>.
\<close>

definition demo_descs :: "fid \<Rightarrow> field" where
  "demo_descs f =
     (if f = 0 then init_field demo_rt no_heap IdField ''id_'' PNone PNone True False None None PNone
      else if f = 1 then init_field demo_rt no_heap IdrefField ''idref'' PNone PNone True False None None PNone
      else if f = 2 then init_field demo_rt no_heap TypedField ''nums'' (PClass ''pkg.mod.Num'') PNone True True None None PNone
      else if f = 3 then init_field demo_rt no_heap TypedField ''box'' (PStr ''pkg.mod.Box'') PNone False False None None PNone
      else if f = 4 then init_field demo_rt no_heap IdField ''boxid'' (PClass ''pkg.mod.Box'') PNone True False None None PNone
      else if f = 5 then init_field demo_rt no_heap TypedField ''items'' PNone PNone False True None None PNone
      else if f = 6 then init_field demo_rt no_heap TypedField ''hooked'' PNone PNone True True (Some 0) (Some 1) PNone
      else if f = 7 then init_field demo_rt no_heap TypedField ''made'' PNone PNone True False None None (PStr ''pkg.mod.Box'')
      else if f = 8 then init_field demo_rt no_heap TypedField ''ghost'' (PStr ''nomod.Ghost'') PNone True False None None PNone
      else init_field demo_rt no_heap TypedField ''other'' PNone PNone True False None None PNone)"

definition demo_state :: state where
  "demo_state =
     \<lparr> descs = demo_descs, ent_fields = (\<lambda>e. []), heap = no_heap, heap_next = 0, trace = [] \<rparr>"

text \<open>The demo state with the typed list \<^verbatim>\<open>_TypedList(Num, [5])\<close> at the address \<open>0\<close>.\<close>

definition num_list_state :: state where
  "num_list_state =
     demo_state\<lparr>heap := no_heap(0 := OTypedList (PClass ''pkg.mod.Num'') [PInt 5]), heap_next := 1\<rparr>"

text \<open>
  The class \<^verbatim>\<open>Null\<close> has a \<^verbatim>\<open>__new__\<close> that returns \<^verbatim>\<open>None\<close>, so that the call \<^verbatim>\<open>Null(v)\<close>
  gives \<^verbatim>\<open>None\<close>; nothing is an instance of it. \<open>null_rt\<close> is the demo environment with this
  class, and \<open>null_list_state\<close> has the empty typed list \<^verbatim>\<open>_TypedList(Null)\<close> at the
  address \<open>0\<close>.
\<close>

definition null_rt :: runtime where
  "null_rt =
     demo_rt\<lparr>call_obj :=
       (\<lambda>t h v. if t = PClass ''pkg.mod.Null'' then Inr PNone else demo_call t h v)\<rparr>"

definition null_list_state :: state where
  "null_list_state =
     demo_state\<lparr>heap := no_heap(0 := OTypedList (PClass ''pkg.mod.Null'') []), heap_next := 1\<rparr>"

text \<open>The demo state after the type of the descriptor \<open>3\<close> has been resolved.\<close>

definition box_resolved_state :: state where
  "box_resolved_state =
     set_slot_type 3 (PClass ''pkg.mod.Box'') (log_event (EvImport ''pkg.mod'') demo_state)"

text \<open>The demo state after \<^verbatim>\<open>entity.idref = "Y"\<close> on the entity \<open>0\<close>.\<close>

definition idref_state :: state where
  "idref_state = store 1 0 (PStr ''Y'') demo_state"



text \<open>
  What building the value of an assignment may do to the state besides the heap: resolve
  type references, which changes the type slot of a descriptor and nothing else of it, and
  log the imports. \<open>imports_only s s1\<close>: the trace of \<open>s1\<close> is the trace of \<open>s\<close> followed by
  imports. \<open>quiet s s1\<close>: from \<open>s\<close> to \<open>s1\<close> the storages are unchanged, the descriptors
  differ in their type slots at most, and only imports were logged.
\<close>

fun is_import :: "event \<Rightarrow> bool" where
  "is_import (EvImport m) = True"
| "is_import ev = False"

definition imports_only :: "state \<Rightarrow> state \<Rightarrow> bool" where
  "imports_only s s1 =
     (take (length (trace s)) (trace s1) = trace s \<and>
      list_all is_import (drop (length (trace s)) (trace s1)))"

definition quiet :: "state \<Rightarrow> state \<Rightarrow> bool" where
  "quiet s s1 =
     (ent_fields s1 = ent_fields s \<and>
      (\<forall>g. descs s1 g = (descs s g)\<lparr>slot_type := slot_type (descs s1 g)\<rparr>) \<and>
      imports_only s s1)"




text \<open>
  The demo state with the list \<^verbatim>\<open>[None, 3, 0, 4]\<close> at the address \<open>0\<close>.
\<close>

definition list_state :: state where
  "list_state =
     demo_state\<lparr>heap := no_heap(0 := OList [PNone, PInt 3, PInt 0, PInt 4]), heap_next := 1\<rparr>"

section \<open>Class resolution: properties\<close>

lemma dropWhile_stop: "\<forall>x\<in>set xs. P x \<Longrightarrow> \<not> P y \<Longrightarrow> dropWhile P (xs @ y # ys) = y # ys"
  by (induction xs) auto

lemma takeWhile_stop: "\<forall>x\<in>set xs. P x \<Longrightarrow> \<not> P y \<Longrightarrow> takeWhile P (xs @ y # ys) = xs"
  by (induction xs) auto

lemma dropWhile_all: "\<forall>x\<in>set xs. P x \<Longrightarrow> dropWhile P xs = []"
  by (induction xs) auto

lemma rsplit_dot_last:
  assumes "CHR ''.'' \<notin> set n"
  shows "rsplit_dot (m @ CHR ''.'' # n) = [m, n]"
proof -
  have p: "\<forall>x\<in>set (rev n). x \<noteq> CHR ''.''" using assms by auto
  have d: "dropWhile (\<lambda>x. x \<noteq> CHR ''.'') (rev n @ CHR ''.'' # rev m) = CHR ''.'' # rev m"
    using p by (intro dropWhile_stop) auto
  have t: "takeWhile (\<lambda>x. x \<noteq> CHR ''.'') (rev n @ CHR ''.'' # rev m) = rev n"
    using p by (intro takeWhile_stop) auto
  have r: "rev (m @ CHR ''.'' # n) = rev n @ CHR ''.'' # rev m" by simp
  show ?thesis unfolding rsplit_dot_def Let_def r d t by simp
qed

lemma rsplit_dot_none:
  assumes "CHR ''.'' \<notin> set p"
  shows "rsplit_dot p = [p]"
proof -
  have "\<forall>x\<in>set (rev p). x \<noteq> CHR ''.''" using assms by auto
  then have d: "dropWhile (\<lambda>x. x \<noteq> CHR ''.'') (rev p) = []" by (rule dropWhile_all)
  show ?thesis unfolding rsplit_dot_def Let_def d by simp
qed

lemma slot_type_same: "slot_type r = v \<Longrightarrow> r\<lparr>slot_type := v\<rparr> = r"
  by (cases r) simp

lemma slot_factory_same: "slot_factory r = v \<Longrightarrow> r\<lparr>slot_factory := v\<rparr> = r"
  by (cases r) simp

lemma type_get_class:
  "slot_type (descs s f) = PClass c \<Longrightarrow> type_get rt f s = (Inr (PClass c), s)"
  by (simp add: type_get_def bnd_def ret_def set_slot_type_def slot_type_same)

lemma type_get_none:
  "slot_type (descs s f) = PNone \<Longrightarrow> type_get rt f s = (Inr PNone, s)"
  by (simp add: type_get_def bnd_def ret_def set_slot_type_def slot_type_same)

lemma type_get_stores:
  "type_get rt f s = (Inr v, s') \<Longrightarrow> slot_type (descs s' f) = v"
  by (auto simp: type_get_def bnd_def ret_def set_slot_type_def split: prod.splits sum.splits)

lemma factory_get_class:
  "slot_factory (descs s f) = PClass c \<Longrightarrow> factory_get rt f s = (Inr (PClass c), s)"
  by (simp add: factory_get_def bnd_def ret_def set_slot_factory_def slot_factory_same)

lemma factory_get_stores:
  "factory_get rt f s = (Inr v, s') \<Longrightarrow> slot_factory (descs s' f) = v"
  by (auto simp: factory_get_def bnd_def ret_def set_slot_factory_def split: prod.splits sum.splits)

lemma resolve_class_other:
  "r \<noteq> PNone \<Longrightarrow> (\<forall>c. r \<noteq> PClass c) \<Longrightarrow> (\<forall>p. r \<noteq> PStr p) \<Longrightarrow>
   resolve_class rt r s = (Inl (UnableToResolve r), s)"
  by (cases r) (simp_all add: raise_def)

lemma resolve_class_dotted:
  "CHR ''.'' \<notin> set n \<Longrightarrow>
   resolve_class rt (PStr (m @ CHR ''.'' # n)) s =
     ((case import_module rt m of
         Inl e \<Rightarrow> Inl e
       | Inr md \<Rightarrow> (case md n of None \<Rightarrow> Inl (AttributeError n) | Some k \<Rightarrow> Inr k)),
      log_event (EvImport m) s)"
  by (simp add: import_class_def rsplit_dot_last raise_def ret_def split: sum.splits option.splits)

lemma type_get_dotted:
  assumes "slot_type (descs s f) = PStr (m @ CHR ''.'' # n)" and "CHR ''.'' \<notin> set n"
    and "import_module rt m = Inr md" and "md n = Some (PClass k)"
  shows "type_get rt f s =
     (Inr (PClass k),
      s\<lparr>descs := (descs s)(f := (descs s f)\<lparr>slot_type := PClass k\<rparr>),
        trace := trace s @ [EvImport m]\<rparr>)"
  unfolding type_get_def assms(1) bnd_def resolve_class_dotted [OF assms(2)]
  by (simp add: assms(3,4) ret_def set_slot_type_def log_event_def)

lemma factory_get_dotted:
  assumes "slot_factory (descs s f) = PStr (m @ CHR ''.'' # n)" and "CHR ''.'' \<notin> set n"
    and "import_module rt m = Inr md" and "md n = Some (PClass k)"
  shows "factory_get rt f s =
     (Inr (PClass k),
      s\<lparr>descs := (descs s)(f := (descs s f)\<lparr>slot_factory := PClass k\<rparr>),
        trace := trace s @ [EvImport m]\<rparr>)"
  unfolding factory_get_def assms(1) bnd_def resolve_class_dotted [OF assms(2)]
  by (simp add: assms(3,4) ret_def set_slot_factory_def log_event_def)

text \<open>
  Claim C8. \<^verbatim>\<open>_resolve_class\<close> maps \<^verbatim>\<open>None\<close> to \<^verbatim>\<open>None\<close> and a class to itself; a string
  with a dot is split at its last dot, the module before the dot is imported and the name
  after it is looked up in the module, and the result is the member, or the exception of
  the import, or an \<^verbatim>\<open>AttributeError\<close> when the module has no such member; every other
  reference raises the invalid-reference \<^verbatim>\<open>ValueError\<close>. The property \<^verbatim>\<open>type_\<close> of a
  descriptor whose type slot holds such a name of a class imports the module, returns the
  class and puts it into the slot, and nothing else of the state changes but the import
  logged; the property \<^verbatim>\<open>factory\<close> does the same with the factory slot. Once \<^verbatim>\<open>type_\<close> (or
  \<^verbatim>\<open>factory\<close>) has returned a class, the class is in the slot of the descriptor, and every
  later access returns it and leaves the state, its trace of imports included, as it is,
  whatever the imports would do.
\<close>

theorem resolve_class_contract:
  "resolve_class rt PNone s = (Inr PNone, s)
   \<and> resolve_class rt (PClass c) s = (Inr (PClass c), s)
   \<and> (CHR ''.'' \<notin> set n \<longrightarrow>
        resolve_class rt (PStr (m @ CHR ''.'' # n)) s =
          ((case import_module rt m of
              Inl e \<Rightarrow> Inl e
            | Inr md \<Rightarrow> (case md n of None \<Rightarrow> Inl (AttributeError n) | Some k \<Rightarrow> Inr k)),
           s\<lparr>trace := trace s @ [EvImport m]\<rparr>))
   \<and> (r \<noteq> PNone \<and> (\<forall>d. r \<noteq> PClass d) \<and> (\<forall>p. r \<noteq> PStr p) \<longrightarrow>
        resolve_class rt r s = (Inl (UnableToResolve r), s))
   \<and> (slot_type (descs s f) = PStr (m @ CHR ''.'' # n) \<and> CHR ''.'' \<notin> set n \<and>
        import_module rt m = Inr md \<and> md n = Some (PClass k) \<longrightarrow>
        type_get rt f s =
          (Inr (PClass k),
           s\<lparr>descs := (descs s)(f := (descs s f)\<lparr>slot_type := PClass k\<rparr>),
             trace := trace s @ [EvImport m]\<rparr>))
   \<and> (slot_factory (descs s f) = PStr (m @ CHR ''.'' # n) \<and> CHR ''.'' \<notin> set n \<and>
        import_module rt m = Inr md \<and> md n = Some (PClass k) \<longrightarrow>
        factory_get rt f s =
          (Inr (PClass k),
           s\<lparr>descs := (descs s)(f := (descs s f)\<lparr>slot_factory := PClass k\<rparr>),
             trace := trace s @ [EvImport m]\<rparr>))
   \<and> (type_get rt f s = (Inr (PClass k), s') \<longrightarrow>
        slot_type (descs s' f) = PClass k \<and>
        (\<forall>rt'. type_get rt' f s' = (Inr (PClass k), s')))
   \<and> (factory_get rt f s = (Inr (PClass k), s') \<longrightarrow>
        slot_factory (descs s' f) = PClass k \<and>
        (\<forall>rt'. factory_get rt' f s' = (Inr (PClass k), s')))"
proof (intro conjI impI allI)
  show "resolve_class rt PNone s = (Inr PNone, s)" by (simp add: ret_def)
  show "resolve_class rt (PClass c) s = (Inr (PClass c), s)" by (simp add: ret_def)
next
  assume d: "CHR ''.'' \<notin> set n"
  show "resolve_class rt (PStr (m @ CHR ''.'' # n)) s =
          ((case import_module rt m of
              Inl e \<Rightarrow> Inl e
            | Inr md \<Rightarrow> (case md n of None \<Rightarrow> Inl (AttributeError n) | Some k \<Rightarrow> Inr k)),
           s\<lparr>trace := trace s @ [EvImport m]\<rparr>)"
    unfolding resolve_class_dotted [OF d] log_event_def by simp
next
  assume "r \<noteq> PNone \<and> (\<forall>d. r \<noteq> PClass d) \<and> (\<forall>p. r \<noteq> PStr p)"
  then show "resolve_class rt r s = (Inl (UnableToResolve r), s)"
    by (simp add: resolve_class_other)
next
  assume a: "slot_type (descs s f) = PStr (m @ CHR ''.'' # n) \<and> CHR ''.'' \<notin> set n \<and>
        import_module rt m = Inr md \<and> md n = Some (PClass k)"
  show "type_get rt f s =
          (Inr (PClass k),
           s\<lparr>descs := (descs s)(f := (descs s f)\<lparr>slot_type := PClass k\<rparr>),
             trace := trace s @ [EvImport m]\<rparr>)"
    using a by (intro type_get_dotted [where md = md and n = n]) simp_all
next
  assume a: "slot_factory (descs s f) = PStr (m @ CHR ''.'' # n) \<and> CHR ''.'' \<notin> set n \<and>
        import_module rt m = Inr md \<and> md n = Some (PClass k)"
  show "factory_get rt f s =
          (Inr (PClass k),
           s\<lparr>descs := (descs s)(f := (descs s f)\<lparr>slot_factory := PClass k\<rparr>),
             trace := trace s @ [EvImport m]\<rparr>)"
    using a by (intro factory_get_dotted [where md = md and n = n]) simp_all
next
  assume a: "type_get rt f s = (Inr (PClass k), s')"
  then show t: "slot_type (descs s' f) = PClass k" by (rule type_get_stores)
  fix rt' show "type_get rt' f s' = (Inr (PClass k), s')"
    using t by (rule type_get_class)
next
  assume a: "factory_get rt f s = (Inr (PClass k), s')"
  then show t: "slot_factory (descs s' f) = PClass k" by (rule factory_get_stores)
  fix rt' show "factory_get rt' f s' = (Inr (PClass k), s')"
    using t by (rule factory_get_class)
qed

theorem resolve_class_contract_witness:
  "resolve_class demo_rt (PStr ''pkg.mod.Box'') demo_state =
     (Inr (PClass ''pkg.mod.Box''), demo_state\<lparr>trace := [EvImport ''pkg.mod'']\<rparr>)
   \<and> resolve_class demo_rt (PInt 3) demo_state = (Inl (UnableToResolve (PInt 3)), demo_state)
   \<and> slot_type (descs demo_state 3) = PStr ''pkg.mod.Box''
   \<and> fst (type_get demo_rt 3 demo_state) = Inr (PClass ''pkg.mod.Box'')
   \<and> slot_type (descs (snd (type_get demo_rt 3 demo_state)) 3) = PClass ''pkg.mod.Box''
   \<and> trace (snd (type_get demo_rt 3 demo_state)) = [EvImport ''pkg.mod'']
   \<and> type_get demo_rt 3 (snd (type_get demo_rt 3 demo_state)) =
       (Inr (PClass ''pkg.mod.Box''), snd (type_get demo_rt 3 demo_state))
   \<and> slot_factory (descs demo_state 7) = PStr ''pkg.mod.Box''
   \<and> fst (factory_get demo_rt 7 demo_state) = Inr (PClass ''pkg.mod.Box'')
   \<and> slot_factory (descs (snd (factory_get demo_rt 7 demo_state)) 7) = PClass ''pkg.mod.Box''
   \<and> trace (snd (factory_get demo_rt 7 demo_state)) = [EvImport ''pkg.mod'']
   \<and> factory_get demo_rt 7 (snd (factory_get demo_rt 7 demo_state)) =
       (Inr (PClass ''pkg.mod.Box''), snd (factory_get demo_rt 7 demo_state))"
proof -
  have box: "import_module demo_rt ''pkg.mod'' = Inr demo_module"
    "demo_module ''Box'' = Some (PClass ''pkg.mod.Box'')"
    by (simp_all add: demo_rt_def demo_module_def)
  have dot: "CHR ''.'' \<notin> set ''Box''" by simp
  have slot: "slot_type (descs demo_state 3) = PStr (''pkg.mod'' @ CHR ''.'' # ''Box'')"
    "slot_factory (descs demo_state 7) = PStr (''pkg.mod'' @ CHR ''.'' # ''Box'')"
    by (simp_all add: demo_state_def demo_descs_def init_field_def)
  have tr: "trace demo_state = []" by (simp add: demo_state_def)
  define s3 where "s3 = demo_state\<lparr>descs := (descs demo_state)
      (3 := (descs demo_state 3)\<lparr>slot_type := PClass ''pkg.mod.Box''\<rparr>),
      trace := trace demo_state @ [EvImport ''pkg.mod'']\<rparr>"
  define s7 where "s7 = demo_state\<lparr>descs := (descs demo_state)
      (7 := (descs demo_state 7)\<lparr>slot_factory := PClass ''pkg.mod.Box''\<rparr>),
      trace := trace demo_state @ [EvImport ''pkg.mod'']\<rparr>"
  note c3 = resolve_class_contract [where rt = demo_rt and s = demo_state and n = "''Box''"
        and m = "''pkg.mod''" and r = "PInt 3" and f = 3 and k = "''pkg.mod.Box''"
        and md = demo_module and s' = s3 and c = "''pkg.mod.Box''"]
  note c7 = resolve_class_contract [where rt = demo_rt and s = demo_state and n = "''Box''"
        and m = "''pkg.mod''" and r = "PInt 3" and f = 7 and k = "''pkg.mod.Box''"
        and md = demo_module and s' = s7 and c = "''pkg.mod.Box''"]
  have r: "resolve_class demo_rt (PStr (''pkg.mod'' @ CHR ''.'' # ''Box'')) demo_state =
     (Inr (PClass ''pkg.mod.Box''), demo_state\<lparr>trace := trace demo_state @ [EvImport ''pkg.mod'']\<rparr>)"
    and u: "resolve_class demo_rt (PInt 3) demo_state = (Inl (UnableToResolve (PInt 3)), demo_state)"
    using c3 dot by (simp_all add: box)
  have g3: "type_get demo_rt 3 demo_state = (Inr (PClass ''pkg.mod.Box''), s3)"
    unfolding s3_def using c3 dot slot(1) box by blast
  have g7: "factory_get demo_rt 7 demo_state = (Inr (PClass ''pkg.mod.Box''), s7)"
    unfolding s7_def using c7 dot slot(2) box by blast
  have h3: "type_get demo_rt 3 s3 = (Inr (PClass ''pkg.mod.Box''), s3)"
    using c3 g3 by blast
  have h7: "factory_get demo_rt 7 s7 = (Inr (PClass ''pkg.mod.Box''), s7)"
    using c7 g7 by blast
  have p3: "slot_type (descs s3 3) = PClass ''pkg.mod.Box''" "trace s3 = [EvImport ''pkg.mod'']"
    by (simp_all add: s3_def tr)
  have p7: "slot_factory (descs s7 7) = PClass ''pkg.mod.Box''" "trace s7 = [EvImport ''pkg.mod'']"
    by (simp_all add: s7_def tr)
  have r': "resolve_class demo_rt (PStr ''pkg.mod.Box'') demo_state =
     (Inr (PClass ''pkg.mod.Box''), demo_state\<lparr>trace := [EvImport ''pkg.mod'']\<rparr>)"
    using r by (simp add: tr)
  have sl: "slot_type (descs demo_state 3) = PStr ''pkg.mod.Box''"
    "slot_factory (descs demo_state 7) = PStr ''pkg.mod.Box''"
    using slot by simp_all
  show ?thesis
    unfolding g3 g7 fst_conv snd_conv h3 h7 using r' u sl p3 p7 by simp
qed
section \<open>Typed sequences: properties\<close>

lemma set_list_insert: "set (list_insert xs idx v) = insert v (set xs)"
proof -
  have "set (take n xs) \<union> set (drop n xs) = set xs" for n
    by (metis append_take_drop_id set_append)
  then show ?thesis by (auto simp: list_insert_def Let_def)
qed

lemma length_list_insert: "length (list_insert xs idx v) = Suc (length xs)"
  by (simp add: list_insert_def Let_def)

lemma truthy_not_None: "truthy rt h v \<Longrightarrow> v \<noteq> PNone"
  by (cases v) simp_all

lemma inner_set_inner: "inner (heap (set_inner a xs s) a) = xs"
  by (simp add: set_inner_def split: pyobj.splits)

lemma valid_or_fixed_result:
  "valid_or_fixed rt h t v = Inr nv \<Longrightarrow> nv = v \<or> py_call rt h t v = Inr nv"
  by (auto simp: valid_or_fixed_def fix_value_def split: sum.splits if_splits)

lemma insert_tl_typed_result:
  assumes "heap s self = OTypedList t xs" and "insert_tl rt self idx v s = (Inr u, s')"
  shows "s' = s \<and> \<not> truthy rt (heap s) v \<or>
         (\<exists>nv. truthy rt (heap s) v \<and> valid_or_fixed rt (heap s) t v = Inr nv \<and>
               s' = set_inner self (list_insert xs idx nv) s)"
  using assms by (auto simp: insert_tl_def ret_def raise_def split: if_splits sum.splits)

lemma demo_num_facts:
  "hasattr_istypeof demo_rt (PClass ''pkg.mod.Num'')"
  "is_valid demo_rt h (PClass ''pkg.mod.Num'') (PInt n) = Inr True"
  "is_valid demo_rt h (PClass ''pkg.mod.Num'') (PBool b) = Inr False"
  "is_valid demo_rt h (PClass ''pkg.mod.Num'') (PStr x) = Inr False"
  "is_valid demo_rt h (PClass ''pkg.mod.Num'') PNone = Inr False"
  "py_call demo_rt h (PClass ''pkg.mod.Num'') (PBool b) = Inr (PInt (if b then 1 else 0))"
  "py_call demo_rt h (PClass ''pkg.mod.Num'') (PStr x) = Inl (Raised ''ValueError'')"
  "py_call demo_rt h (PClass ''pkg.mod.Num'') PNone = Inl (Raised ''ValueError'')"
  "py_call demo_rt h (PClass ''pkg.mod.Num'') w \<noteq> Inr PNone"
  by (simp_all add: hasattr_istypeof_def is_valid_def call_istypeof_def py_call_def
      demo_rt_def demo_call_def split: pyval.splits)

lemma num_list_state_heap:
  "heap num_list_state 0 = OTypedList (PClass ''pkg.mod.Num'') [PInt 5]"
  by (simp add: num_list_state_def)

text \<open>
  Claim C5, as amended. On a typed list with the elements \<open>xs\<close>, \<^verbatim>\<open>insert(idx, value)\<close>
  with a falsy value returns and leaves the state as it is. With a truthy value that
  passes the membership test the list is afterwards \<open>xs\<close> with the value put in at the
  position \<open>j\<close> of the index (a negative index counts from the end, and an index beyond
  either end is the end); with a truthy value that fails the test the element put in is
  the result of calling the element type on the value, and when that call raises, the
  \<^verbatim>\<open>ValueError\<close> built from the value, its type, the type of the container and the expected
  type is raised, the state unchanged. Nothing else of the state changes. A list without
  \<^verbatim>\<open>None\<close> has none after an insertion unless the value fails the membership test and the
  call of the element type on it returns \<^verbatim>\<open>None\<close>.
\<close>

theorem insert_tl_contract:
  "heap s self = OTypedList t xs \<and>
   j = (if idx < 0 then max 0 (idx + int (length xs)) else min idx (int (length xs))) \<longrightarrow>
     (\<not> truthy rt (heap s) v \<longrightarrow> insert_tl rt self idx v s = (Inr (), s))
   \<and> (truthy rt (heap s) v \<and> is_valid rt (heap s) t v = Inr True \<longrightarrow>
        insert_tl rt self idx v s =
          (Inr (), s\<lparr>heap := (heap s)
             (self := OTypedList t (take (nat j) xs @ v # drop (nat j) xs))\<rparr>))
   \<and> (truthy rt (heap s) v \<and> is_valid rt (heap s) t v = Inr False \<and>
        py_call rt (heap s) t v = Inr nv \<longrightarrow>
        insert_tl rt self idx v s =
          (Inr (), s\<lparr>heap := (heap s)
             (self := OTypedList t (take (nat j) xs @ nv # drop (nat j) xs))\<rparr>))
   \<and> (truthy rt (heap s) v \<and> is_valid rt (heap s) t v = Inr False \<and>
        py_call rt (heap s) t v = Inl e \<longrightarrow>
        insert_tl rt self idx v s = (Inl (CantPut v (type_of (heap s) v) ''_TypedList'' t), s))
   \<and> (PNone \<notin> set xs \<and>
        \<not> (is_valid rt (heap s) t v = Inr False \<and> py_call rt (heap s) t v = Inr PNone) \<and>
        insert_tl rt self idx v s = (Inr (), s') \<longrightarrow>
        PNone \<notin> set (inner (heap s' self)))"
proof (intro impI conjI)
  assume hj: "heap s self = OTypedList t xs \<and>
   j = (if idx < 0 then max 0 (idx + int (length xs)) else min idx (int (length xs)))"
  then have h: "heap s self = OTypedList t xs" by simp
  from hj have li: "list_insert xs idx w = take (nat j) xs @ w # drop (nat j) xs" for w
    by (simp add: list_insert_def Let_def)
  show "insert_tl rt self idx v s = (Inr (), s)" if "\<not> truthy rt (heap s) v"
    using h that by (simp add: insert_tl_def ret_def)
  show "insert_tl rt self idx v s =
          (Inr (), s\<lparr>heap := (heap s)
             (self := OTypedList t (take (nat j) xs @ v # drop (nat j) xs))\<rparr>)"
    if "truthy rt (heap s) v \<and> is_valid rt (heap s) t v = Inr True"
    using h that by (simp add: insert_tl_def valid_or_fixed_def ret_def set_inner_def li)
  show "insert_tl rt self idx v s =
          (Inr (), s\<lparr>heap := (heap s)
             (self := OTypedList t (take (nat j) xs @ nv # drop (nat j) xs))\<rparr>)"
    if "truthy rt (heap s) v \<and> is_valid rt (heap s) t v = Inr False \<and>
        py_call rt (heap s) t v = Inr nv"
    using h that
    by (simp add: insert_tl_def valid_or_fixed_def fix_value_def ret_def set_inner_def li)
  show "insert_tl rt self idx v s = (Inl (CantPut v (type_of (heap s) v) ''_TypedList'' t), s)"
    if "truthy rt (heap s) v \<and> is_valid rt (heap s) t v = Inr False \<and>
        py_call rt (heap s) t v = Inl e"
    using h that by (simp add: insert_tl_def valid_or_fixed_def fix_value_def raise_def)
  show "PNone \<notin> set (inner (heap s' self))"
    if a: "PNone \<notin> set xs \<and>
        \<not> (is_valid rt (heap s) t v = Inr False \<and> py_call rt (heap s) t v = Inr PNone) \<and>
        insert_tl rt self idx v s = (Inr (), s')"
  proof -
    from insert_tl_typed_result [OF h] a
    consider "s' = s" |
      nv where "truthy rt (heap s) v" "valid_or_fixed rt (heap s) t v = Inr nv"
        "s' = set_inner self (list_insert xs idx nv) s"
      by blast
    then show ?thesis
    proof cases
      case 1
      then show ?thesis using h a by simp
    next
      case 2
      have "nv \<noteq> PNone"
      proof
        assume n: "nv = PNone"
        from 2(1) have "v \<noteq> PNone" by (rule truthy_not_None)
        with 2(2) n have "is_valid rt (heap s) t v = Inr False \<and>
            py_call rt (heap s) t v = Inr PNone"
          by (auto simp: valid_or_fixed_def fix_value_def split: sum.splits if_splits)
        with a show False by simp
      qed
      then show ?thesis using 2(3) a by (simp add: inner_set_inner set_list_insert)
    qed
  qed
qed

theorem insert_tl_contract_witness:
  "insert_tl demo_rt 0 0 (PInt 0) num_list_state = (Inr (), num_list_state)
   \<and> fst (insert_tl demo_rt 0 1 (PInt 7) num_list_state) = Inr ()
   \<and> heap (snd (insert_tl demo_rt 0 1 (PInt 7) num_list_state)) 0 =
       OTypedList (PClass ''pkg.mod.Num'') [PInt 5, PInt 7]
   \<and> fst (insert_tl demo_rt 0 (- 9) (PBool True) num_list_state) = Inr ()
   \<and> heap (snd (insert_tl demo_rt 0 (- 9) (PBool True) num_list_state)) 0 =
       OTypedList (PClass ''pkg.mod.Num'') [PInt 1, PInt 5]
   \<and> insert_tl demo_rt 0 0 (PStr ''x'') num_list_state =
       (Inl (CantPut (PStr ''x'') ''str'' ''_TypedList'' (PClass ''pkg.mod.Num'')), num_list_state)
   \<and> PNone \<notin> set (inner (heap (snd (insert_tl demo_rt 0 (- 9) (PBool True) num_list_state)) 0))"
proof -
  note h = num_list_state_heap
  have a: "insert_tl demo_rt 0 0 (PInt 0) num_list_state = (Inr (), num_list_state)"
    using insert_tl_contract [where s = num_list_state and self = 0 and rt = demo_rt
        and t = "PClass ''pkg.mod.Num''" and xs = "[PInt 5]" and j = 0
        and v = "PInt 0" and idx = 0 and nv = PNone and e = "Raised ''ValueError''"
        and s' = num_list_state] h
    by simp
  have b: "insert_tl demo_rt 0 1 (PInt 7) num_list_state =
       (Inr (), num_list_state\<lparr>heap := (heap num_list_state)
          (0 := OTypedList (PClass ''pkg.mod.Num'') [PInt 5, PInt 7])\<rparr>)"
    using insert_tl_contract [where s = num_list_state and self = 0 and rt = demo_rt
        and t = "PClass ''pkg.mod.Num''" and xs = "[PInt 5]" and j = 1
        and v = "PInt 7" and idx = 1 and nv = PNone and e = "Raised ''ValueError''"
        and s' = num_list_state] h
    by (simp add: demo_num_facts)
  have c: "insert_tl demo_rt 0 (- 9) (PBool True) num_list_state =
       (Inr (), num_list_state\<lparr>heap := (heap num_list_state)
          (0 := OTypedList (PClass ''pkg.mod.Num'') [PInt 1, PInt 5])\<rparr>)"
    using insert_tl_contract [where s = num_list_state and self = 0 and rt = demo_rt
        and t = "PClass ''pkg.mod.Num''" and xs = "[PInt 5]" and j = 0
        and v = "PBool True" and idx = "- 9" and nv = "PInt 1" and e = "Raised ''ValueError''"
        and s' = num_list_state] h
    by (simp add: demo_num_facts)
  have d: "insert_tl demo_rt 0 0 (PStr ''x'') num_list_state =
       (Inl (CantPut (PStr ''x'') ''str'' ''_TypedList'' (PClass ''pkg.mod.Num'')), num_list_state)"
    using insert_tl_contract [where s = num_list_state and self = 0 and rt = demo_rt
        and t = "PClass ''pkg.mod.Num''" and xs = "[PInt 5]" and j = 0
        and v = "PStr ''x''" and idx = 0 and nv = PNone and e = "Raised ''ValueError''"
        and s' = num_list_state] h
    by (simp add: demo_num_facts)
  have e: "PNone \<notin> set (inner (heap (snd (insert_tl demo_rt 0 (- 9) (PBool True) num_list_state)) 0))"
    using insert_tl_contract [where s = num_list_state and self = 0 and rt = demo_rt
        and t = "PClass ''pkg.mod.Num''" and xs = "[PInt 5]" and j = 0
        and v = "PBool True" and idx = "- 9" and nv = "PInt 1" and e = "Raised ''ValueError''"
        and s' = "num_list_state\<lparr>heap := (heap num_list_state)
          (0 := OTypedList (PClass ''pkg.mod.Num'') [PInt 1, PInt 5])\<rparr>"] h c
    by (simp add: demo_num_facts)
  show ?thesis unfolding b c using a d e [unfolded c] by simp
qed

text \<open>
  The claim as it stood, without the exception of the last sentence, fails on the class
  \<^verbatim>\<open>Null\<close>, whose call returns \<^verbatim>\<open>None\<close>: \<^verbatim>\<open>_TypedList(Null).insert(0, 1)\<close> finds that \<open>1\<close> is
  no instance of \<^verbatim>\<open>Null\<close>, calls \<^verbatim>\<open>Null(1)\<close> and inserts its result, and the list is
  \<^verbatim>\<open>[None]\<close>.
\<close>

theorem insert_none_counterexample:
  "heap null_list_state 0 = OTypedList (PClass ''pkg.mod.Null'') []
   \<and> truthy null_rt (heap null_list_state) (PInt 1)
   \<and> fst (insert_tl null_rt 0 0 (PInt 1) null_list_state) = Inr ()
   \<and> inner (heap (snd (insert_tl null_rt 0 0 (PInt 1) null_list_state)) 0) = [PNone]"
  by (simp add: null_list_state_def null_rt_def demo_rt_def insert_tl_def valid_or_fixed_def
      is_valid_def hasattr_istypeof_def py_isinstance_def fix_value_def py_call_def
      ret_def set_inner_def list_insert_def)
lemma list_setitem_in_range:
  "0 \<le> j \<Longrightarrow> j < int (length xs) \<Longrightarrow> key = j \<or> key = j - int (length xs) \<Longrightarrow>
   list_setitem xs key v = Some (xs[nat j := v])"
  by (auto simp: list_setitem_def Let_def)

text \<open>
  Claim C10. On a typed list, \<^verbatim>\<open>self[key] = value\<close> with an index in range (counted from
  the end when negative) validates or coerces every value, whatever its truth value: a
  value that passes the membership test is the element at the index afterwards, a value
  that fails it is replaced there by the result of calling the element type on it, and
  when that call raises, the \<^verbatim>\<open>ValueError\<close> of the coercion is raised and the list is as
  before. The other elements, the other objects of the heap and the rest of the state are
  unchanged. \<^verbatim>\<open>insert\<close> at the same index returns without a change on a falsy value.
\<close>

theorem setitem_contract:
  "heap s self = OTypedList t xs \<and> 0 \<le> j \<and> j < int (length xs) \<and>
   (key = j \<or> key = j - int (length xs)) \<longrightarrow>
     (is_valid rt (heap s) t v = Inr True \<longrightarrow>
        setitem rt self key v s =
          (Inr (), s\<lparr>heap := (heap s)(self := OTypedList t (xs[nat j := v]))\<rparr>)
        \<and> inner (heap (snd (setitem rt self key v s)) self) ! nat j = v)
   \<and> (is_valid rt (heap s) t v = Inr False \<and> py_call rt (heap s) t v = Inr nv \<longrightarrow>
        setitem rt self key v s =
          (Inr (), s\<lparr>heap := (heap s)(self := OTypedList t (xs[nat j := nv]))\<rparr>)
        \<and> inner (heap (snd (setitem rt self key v s)) self) ! nat j = nv)
   \<and> (is_valid rt (heap s) t v = Inr False \<and> py_call rt (heap s) t v = Inl e \<longrightarrow>
        setitem rt self key v s = (Inl (CantPut v (type_of (heap s) v) ''_TypedList'' t), s))
   \<and> (\<not> truthy rt (heap s) v \<longrightarrow> insert_tl rt self key v s = (Inr (), s))"
proof (intro impI conjI)
  assume a: "heap s self = OTypedList t xs \<and> 0 \<le> j \<and> j < int (length xs) \<and>
   (key = j \<or> key = j - int (length xs))"
  then have h: "heap s self = OTypedList t xs" by simp
  from a have k: "list_setitem xs key w = Some (xs[nat j := w])" for w
    by (intro list_setitem_in_range) auto
  from a have l: "nat j < length xs" by auto
  show v: "setitem rt self key v s =
      (Inr (), s\<lparr>heap := (heap s)(self := OTypedList t (xs[nat j := v]))\<rparr>)"
    if "is_valid rt (heap s) t v = Inr True"
    using h that by (simp add: setitem_def valid_or_fixed_def k ret_def set_inner_def)
  show "inner (heap (snd (setitem rt self key v s)) self) ! nat j = v"
    if "is_valid rt (heap s) t v = Inr True"
    using v [OF that] l by simp
  show n: "setitem rt self key v s =
      (Inr (), s\<lparr>heap := (heap s)(self := OTypedList t (xs[nat j := nv]))\<rparr>)"
    if "is_valid rt (heap s) t v = Inr False \<and> py_call rt (heap s) t v = Inr nv"
    using h that by (simp add: setitem_def valid_or_fixed_def fix_value_def k ret_def set_inner_def)
  show "inner (heap (snd (setitem rt self key v s)) self) ! nat j = nv"
    if "is_valid rt (heap s) t v = Inr False \<and> py_call rt (heap s) t v = Inr nv"
    using n [OF that] l by simp
  show "setitem rt self key v s = (Inl (CantPut v (type_of (heap s) v) ''_TypedList'' t), s)"
    if "is_valid rt (heap s) t v = Inr False \<and> py_call rt (heap s) t v = Inl e"
    using h that by (simp add: setitem_def valid_or_fixed_def fix_value_def raise_def)
  show "insert_tl rt self key v s = (Inr (), s)" if "\<not> truthy rt (heap s) v"
    using h that by (simp add: insert_tl_def ret_def)
qed

theorem setitem_contract_witness:
  "fst (setitem demo_rt 0 0 (PInt 0) num_list_state) = Inr ()
   \<and> heap (snd (setitem demo_rt 0 0 (PInt 0) num_list_state)) 0 =
       OTypedList (PClass ''pkg.mod.Num'') [PInt 0]
   \<and> fst (setitem demo_rt 0 (- 1) (PBool False) num_list_state) = Inr ()
   \<and> heap (snd (setitem demo_rt 0 (- 1) (PBool False) num_list_state)) 0 =
       OTypedList (PClass ''pkg.mod.Num'') [PInt 0]
   \<and> setitem demo_rt 0 0 PNone num_list_state =
       (Inl (CantPut PNone ''NoneType'' ''_TypedList'' (PClass ''pkg.mod.Num'')), num_list_state)
   \<and> insert_tl demo_rt 0 0 (PInt 0) num_list_state = (Inr (), num_list_state)
   \<and> heap num_list_state 0 = OTypedList (PClass ''pkg.mod.Num'') [PInt 5]"
proof -
  note h = num_list_state_heap
  have a: "setitem demo_rt 0 0 (PInt 0) num_list_state =
      (Inr (), num_list_state\<lparr>heap := (heap num_list_state)
         (0 := OTypedList (PClass ''pkg.mod.Num'') ([PInt 5][nat 0 := PInt 0]))\<rparr>)"
    and d: "insert_tl demo_rt 0 0 (PInt 0) num_list_state = (Inr (), num_list_state)"
    using setitem_contract [where s = num_list_state and self = 0 and rt = demo_rt
        and t = "PClass ''pkg.mod.Num''" and xs = "[PInt 5]" and j = 0 and key = 0
        and v = "PInt 0" and nv = "PInt 0" and e = "Raised ''ValueError''"] h
    by (simp_all add: demo_num_facts)
  have b: "setitem demo_rt 0 (- 1) (PBool False) num_list_state =
      (Inr (), num_list_state\<lparr>heap := (heap num_list_state)
         (0 := OTypedList (PClass ''pkg.mod.Num'') ([PInt 5][nat 0 := PInt 0]))\<rparr>)"
    using setitem_contract [where s = num_list_state and self = 0 and rt = demo_rt
        and t = "PClass ''pkg.mod.Num''" and xs = "[PInt 5]" and j = 0 and key = "- 1"
        and v = "PBool False" and nv = "PInt 0" and e = "Raised ''ValueError''"] h
    by (simp add: demo_num_facts)
  have c: "setitem demo_rt 0 0 PNone num_list_state =
       (Inl (CantPut PNone ''NoneType'' ''_TypedList'' (PClass ''pkg.mod.Num'')), num_list_state)"
    using setitem_contract [where s = num_list_state and self = 0 and rt = demo_rt
        and t = "PClass ''pkg.mod.Num''" and xs = "[PInt 5]" and j = 0 and key = 0
        and v = PNone and nv = PNone and e = "Raised ''ValueError''"] h
    by (simp add: demo_num_facts)
  show ?thesis unfolding a b using c d h by simp
qed
section \<open>Cleaning: properties\<close>

lemma check_type_class:
  assumes "slot_type (descs s f) = PClass c"
  shows "check_type rt f v s =
     (Inr (if has_istypeof rt (PClass c) then istypeof rt (PClass c) (heap s) v
           else isinstance_of rt (heap s) v c), s)"
  using assms
  by (simp add: check_type_def bnd_def type_get_class ret_def lift_def hasattr_istypeof_def
      call_istypeof_def py_isinstance_def)

lemma clean_base_None: "clean_base rt f PNone s = (Inr PNone, s)"
  by (simp add: clean_base_def ret_def)

lemma clean_base_untyped:
  "slot_type (descs s f) = PNone \<Longrightarrow> clean_base rt f v s = (Inr v, s)"
  by (simp add: clean_base_def bnd_def type_get_none ret_def)

lemma clean_base_class:
  assumes "slot_type (descs s f) = PClass c" and "v \<noteq> PNone"
  shows "clean_base rt f v s =
     (case check_type rt f v s of
        (Inr True, s') \<Rightarrow> (Inr v, s)
      | _ \<Rightarrow> if is_type_castable (descs s f) then (py_call rt (heap s) (PClass c) v, s)
             else (Inl (MustBe (name (descs s f)) (PClass c) (type_of (heap s) v)), s))"
  using assms
  by (simp add: clean_base_def bnd_def type_get_class check_type_class ret_def lift_def raise_def)

lemma resolve_class_frame:
  assumes "resolve_class rt r s = (x, s1)"
  shows "descs s1 = descs s \<and> ent_fields s1 = ent_fields s \<and> heap s1 = heap s \<and>
         heap_next s1 = heap_next s"
  using assms
  by (cases r)
     (auto simp: ret_def raise_def import_class_def log_event_def
        split: list.splits sum.splits option.splits)

lemma type_get_frame:
  assumes "type_get rt f s = (x, s1)"
  shows "ent_fields s1 = ent_fields s \<and> heap s1 = heap s \<and> heap_next s1 = heap_next s \<and>
         (\<forall>g. cls (descs s1 g) = cls (descs s g) \<and> name (descs s1 g) = name (descs s g) \<and>
              multiple (descs s1 g) = multiple (descs s g) \<and>
              listclass (descs s1 g) = listclass (descs s g) \<and>
              preset_hook (descs s1 g) = preset_hook (descs s g) \<and>
              postset_hook (descs s1 g) = postset_hook (descs s g) \<and>
              is_type_castable (descs s1 g) = is_type_castable (descs s g) \<and>
              comparable (descs s1 g) = comparable (descs s g) \<and>
              slot_key_name (descs s1 g) = slot_key_name (descs s g) \<and>
              slot_factory (descs s1 g) = slot_factory (descs s g) \<and>
              (g \<noteq> f \<longrightarrow> descs s1 g = descs s g))"
proof (cases "resolve_class rt (slot_type (descs s f)) s")
  case (Pair y s0)
  note fr = resolve_class_frame [OF Pair]
  show ?thesis
  proof (cases y)
    case (Inl e)
    with Pair assms have "s1 = s0" by (simp add: type_get_def bnd_def)
    then show ?thesis using fr by simp
  next
    case (Inr c)
    with Pair assms have "s1 = set_slot_type f c s0" by (simp add: type_get_def bnd_def ret_def)
    then show ?thesis using fr by (simp add: set_slot_type_def)
  qed
qed

lemma clean_base_deferred:
  assumes "type_get rt f s = (Inr (PClass c), s1)" and "v \<noteq> PNone"
  shows "clean_base rt f v s = clean_base rt f v s1"
proof -
  have "slot_type (descs s1 f) = PClass c" using assms(1) by (rule type_get_stores)
  then have "type_get rt f s1 = (Inr (PClass c), s1)" by (rule type_get_class)
  then show ?thesis using assms by (simp add: clean_base_def bnd_def)
qed

text \<open>
  Claim C2, as amended. \<^verbatim>\<open>TypedField._clean\<close> returns \<^verbatim>\<open>None\<close> for \<^verbatim>\<open>None\<close>, and any value
  for a field without a type. For a field whose type is a class and a value other than
  \<^verbatim>\<open>None\<close>: a value that passes \<^verbatim>\<open>check_type\<close> is returned as it is; a value that fails it
  is replaced by the call of the class on it when the attribute \<^verbatim>\<open>is_type_castable\<close> of the
  field is set, and raises the \<^verbatim>\<open>TypeError\<close> built from the name of the field, the class
  and the type of the value when it is not. The state is unchanged in all these cases. A
  field whose type is a string that resolves to a class behaves, from the state after the
  resolution on, as the field with that class and with the same attributes otherwise;
  \<^verbatim>\<open>__init__\<close> never sets \<^verbatim>\<open>is_type_castable\<close> for a string.
\<close>

theorem clean_base_contract:
  "clean_base rt f PNone s = (Inr PNone, s)
   \<and> (slot_type (descs s f) = PNone \<longrightarrow> clean_base rt f v s = (Inr v, s))
   \<and> (slot_type (descs s f) = PClass c \<and> v \<noteq> PNone \<longrightarrow>
        (fst (check_type rt f v s) = Inr True \<longrightarrow> clean_base rt f v s = (Inr v, s))
      \<and> (fst (check_type rt f v s) = Inr False \<and> is_type_castable (descs s f) \<longrightarrow>
          clean_base rt f v s = (py_call rt (heap s) (PClass c) v, s))
      \<and> (fst (check_type rt f v s) = Inr False \<and> \<not> is_type_castable (descs s f) \<longrightarrow>
          clean_base rt f v s =
            (Inl (MustBe (name (descs s f)) (PClass c) (type_of (heap s) v)), s)))
   \<and> (type_get rt f s = (Inr (PClass c), s1) \<and> v \<noteq> PNone \<longrightarrow>
        clean_base rt f v s = clean_base rt f v s1 \<and>
        slot_type (descs s1 f) = PClass c \<and>
        is_type_castable (descs s1 f) = is_type_castable (descs s f) \<and>
        name (descs s1 f) = name (descs s f))
   \<and> \<not> is_type_castable (init_field rt h k nm (PStr p) kn cmp mult pre post fac)"
proof (intro conjI impI)
  show "clean_base rt f PNone s = (Inr PNone, s)" by (rule clean_base_None)
  show "clean_base rt f v s = (Inr v, s)" if "slot_type (descs s f) = PNone"
    using that by (rule clean_base_untyped)
  show "\<not> is_type_castable (init_field rt h k nm (PStr p) kn cmp mult pre post fac)"
    by (simp add: init_field_def getattr_try_cast_def)
next
  assume a: "slot_type (descs s f) = PClass c \<and> v \<noteq> PNone"
  then have cb: "clean_base rt f v s =
     (case check_type rt f v s of
        (Inr True, s') \<Rightarrow> (Inr v, s)
      | _ \<Rightarrow> if is_type_castable (descs s f) then (py_call rt (heap s) (PClass c) v, s)
             else (Inl (MustBe (name (descs s f)) (PClass c) (type_of (heap s) v)), s))"
    by (simp add: clean_base_class)
  show "clean_base rt f v s = (Inr v, s)" if "fst (check_type rt f v s) = Inr True"
    using that unfolding cb by (cases "check_type rt f v s") simp
  show "clean_base rt f v s = (py_call rt (heap s) (PClass c) v, s)"
    if "fst (check_type rt f v s) = Inr False \<and> is_type_castable (descs s f)"
    using that unfolding cb by (cases "check_type rt f v s") simp
  show "clean_base rt f v s = (Inl (MustBe (name (descs s f)) (PClass c) (type_of (heap s) v)), s)"
    if "fst (check_type rt f v s) = Inr False \<and> \<not> is_type_castable (descs s f)"
    using that unfolding cb by (cases "check_type rt f v s") simp
next
  assume a: "type_get rt f s = (Inr (PClass c), s1) \<and> v \<noteq> PNone"
  then show "clean_base rt f v s = clean_base rt f v s1"
    by (simp add: clean_base_deferred)
  from a show "slot_type (descs s1 f) = PClass c" by (auto dest: type_get_stores)
  from a have fr: "type_get rt f s = (Inr (PClass c), s1)" by simp
  show "is_type_castable (descs s1 f) = is_type_castable (descs s f)"
    using type_get_frame [OF fr] by simp
  show "name (descs s1 f) = name (descs s f)"
    using type_get_frame [OF fr] by simp
qed

lemma demo_box_resolve:
  "type_get demo_rt 3 demo_state = (Inr (PClass ''pkg.mod.Box''), box_resolved_state)"
proof -
  have split: "rsplit_dot ''pkg.mod.Box'' = [''pkg.mod'', ''Box'']"
    using rsplit_dot_last [of "''Box''" "''pkg.mod''"] by simp
  have slot: "slot_type (descs demo_state 3) = PStr ''pkg.mod.Box''"
    by (simp add: demo_state_def demo_descs_def init_field_def)
  show ?thesis
    unfolding type_get_def slot box_resolved_state_def
    by (simp add: bnd_def import_class_def split ret_def demo_rt_def demo_module_def)
qed

lemma demo_box_resolved_desc:
  "descs box_resolved_state 3 =
     (init_field demo_rt no_heap TypedField ''box'' (PStr ''pkg.mod.Box'') PNone False False
        None None PNone)\<lparr>slot_type := PClass ''pkg.mod.Box''\<rparr>"
  "heap box_resolved_state = no_heap"
  by (simp_all add: box_resolved_state_def set_slot_type_def log_event_def demo_state_def
      demo_descs_def)

lemma demo_box_facts:
  "\<not> has_istypeof demo_rt (PClass ''pkg.mod.Box'')"
  "try_cast demo_rt (PClass ''pkg.mod.Box'')"
  "isinstance_of demo_rt h (PInt n) c = False"
  "isinstance_of demo_rt h (PObj d i) c = (d = c)"
  "py_call demo_rt h (PClass ''pkg.mod.Box'') v = Inr (PObj ''pkg.mod.Box'' 0)"
  by (simp_all add: demo_rt_def demo_call_def py_call_def)

lemma demo_desc_4:
  "descs demo_state 4 =
     init_field demo_rt no_heap IdField ''boxid'' (PClass ''pkg.mod.Box'') PNone True False
       None None PNone"
  "descs demo_state 0 =
     init_field demo_rt no_heap IdField ''id_'' PNone PNone True False None None PNone"
  "descs demo_state 3 =
     init_field demo_rt no_heap TypedField ''box'' (PStr ''pkg.mod.Box'') PNone False False
       None None PNone"
  "heap demo_state = no_heap"
  by (simp_all add: demo_state_def demo_descs_def)

theorem clean_base_contract_witness:
  "clean_base demo_rt 0 (PStr ''x'') demo_state = (Inr (PStr ''x''), demo_state)
   \<and> clean_base demo_rt 4 (PObj ''pkg.mod.Box'' 7) demo_state =
       (Inr (PObj ''pkg.mod.Box'' 7), demo_state)
   \<and> clean_base demo_rt 4 (PInt 1) demo_state = (Inr (PObj ''pkg.mod.Box'' 0), demo_state)
   \<and> clean_base demo_rt 3 (PInt 1) box_resolved_state =
       (Inl (MustBe ''box'' (PClass ''pkg.mod.Box'') ''int''), box_resolved_state)
   \<and> clean_base demo_rt 3 (PInt 1) demo_state = clean_base demo_rt 3 (PInt 1) box_resolved_state"
proof -
  have a: "clean_base demo_rt 0 (PStr ''x'') demo_state = (Inr (PStr ''x''), demo_state)"
    using clean_base_contract [where rt = demo_rt and f = 0 and s = demo_state
        and v = "PStr ''x''"]
    by (simp add: demo_desc_4 init_field_def)
  have b: "clean_base demo_rt 4 (PObj ''pkg.mod.Box'' 7) demo_state =
       (Inr (PObj ''pkg.mod.Box'' 7), demo_state)"
    using clean_base_contract [where rt = demo_rt and f = 4 and s = demo_state
        and v = "PObj ''pkg.mod.Box'' 7" and c = "''pkg.mod.Box''"]
    by (simp add: demo_desc_4 init_field_def check_type_class demo_box_facts)
  have c: "clean_base demo_rt 4 (PInt 1) demo_state = (Inr (PObj ''pkg.mod.Box'' 0), demo_state)"
    using clean_base_contract [where rt = demo_rt and f = 4 and s = demo_state
        and v = "PInt 1" and c = "''pkg.mod.Box''"]
    by (simp add: demo_desc_4 init_field_def check_type_class demo_box_facts
        getattr_try_cast_def)
  have d: "clean_base demo_rt 3 (PInt 1) box_resolved_state =
       (Inl (MustBe ''box'' (PClass ''pkg.mod.Box'') ''int''), box_resolved_state)"
    using clean_base_contract [where rt = demo_rt and f = 3 and s = box_resolved_state
        and v = "PInt 1" and c = "''pkg.mod.Box''"]
    by (simp add: demo_box_resolved_desc init_field_def check_type_class demo_box_facts
        getattr_try_cast_def)
  have e: "clean_base demo_rt 3 (PInt 1) demo_state =
       clean_base demo_rt 3 (PInt 1) box_resolved_state"
    using clean_base_contract [where rt = demo_rt and f = 3 and s = demo_state
        and v = "PInt 1" and c = "''pkg.mod.Box''" and ?s1.0 = box_resolved_state]
      demo_box_resolve
    by simp
  show ?thesis using a b c d e by simp
qed

text \<open>
  The claim C2 as the specification states it fails on a field whose type is given as a
  string: the class \<^verbatim>\<open>pkg.mod.Box\<close> that the string resolves to carries the marker, the
  integer \<open>1\<close> fails its membership test, and \<^verbatim>\<open>_clean\<close> raises the \<^verbatim>\<open>TypeError\<close> instead
  of returning \<^verbatim>\<open>Box(1)\<close>.
\<close>

theorem clean_base_counterexample:
  "descs demo_state 3 =
     init_field demo_rt no_heap TypedField ''box'' (PStr ''pkg.mod.Box'') PNone False False
       None None PNone
   \<and> fst (type_get demo_rt 3 demo_state) = Inr (PClass ''pkg.mod.Box'')
   \<and> try_cast demo_rt (PClass ''pkg.mod.Box'')
   \<and> fst (check_type demo_rt 3 (PInt 1) demo_state) = Inr False
   \<and> py_call demo_rt (heap demo_state) (PClass ''pkg.mod.Box'') (PInt 1) =
       Inr (PObj ''pkg.mod.Box'' 0)
   \<and> fst (clean_base demo_rt 3 (PInt 1) demo_state) =
       Inl (MustBe ''box'' (PClass ''pkg.mod.Box'') ''int'')"
proof -
  have r: "slot_type (descs box_resolved_state 3) = PClass ''pkg.mod.Box''"
    by (simp add: demo_box_resolved_desc)
  have ct: "check_type demo_rt 3 (PInt 1) demo_state = check_type demo_rt 3 (PInt 1) box_resolved_state"
    by (simp add: check_type_def bnd_def demo_box_resolve type_get_class [OF r])
  have cb: "clean_base demo_rt 3 (PInt 1) demo_state =
       clean_base demo_rt 3 (PInt 1) box_resolved_state"
    using demo_box_resolve by (simp add: clean_base_deferred)
  have d: "clean_base demo_rt 3 (PInt 1) box_resolved_state =
       (Inl (MustBe ''box'' (PClass ''pkg.mod.Box'') ''int''), box_resolved_state)"
    by (simp add: clean_base_class [OF r] check_type_class [OF r] demo_box_facts
        demo_box_resolved_desc init_field_def getattr_try_cast_def)
  show ?thesis
    by (simp add: demo_desc_4 demo_box_resolve demo_box_facts ct cb d check_type_class [OF r])
qed

section \<open>A type given as a string is never cast\<close>



section \<open>Unsetting fields: properties\<close>

lemma unset_loop_tuple:
  "unset_loop e (ClassTuple ts) ks s =
     (Inr (), s\<lparr>ent_fields := (ent_fields s)(e :=
        filter (\<lambda>p. \<not> (fst p \<in> set ks \<and> (\<exists>c \<in> set ts. issubclass (cls (descs s (fst p))) c)))
          (ent_fields s e))\<rparr>)"
proof (induction ks arbitrary: s)
  case Nil
  then show ?case by simp
next
  case (Cons x xs)
  define M where "M = (\<lambda>y. \<exists>c \<in> set ts. issubclass (cls (descs s y)) c)"
  define s1 where "s1 = (if M x then del_field x e s else s)"
  have d: "descs s1 = descs s" by (simp add: s1_def del_field_def)
  have l: "ent_fields s1 e = filter (\<lambda>p. M x \<longrightarrow> fst p \<noteq> x) (ent_fields s e)"
    by (auto simp: s1_def del_field_def AList.delete_eq intro: filter_cong)
  have st: "s1\<lparr>ent_fields := (ent_fields s1)(e := L)\<rparr> = s\<lparr>ent_fields := (ent_fields s)(e := L)\<rparr>" for L
    by (simp add: s1_def del_field_def)
  have f: "filter (\<lambda>p. \<not> (fst p \<in> set xs \<and> M (fst p)))
             (filter (\<lambda>p. M x \<longrightarrow> fst p \<noteq> x) (ent_fields s e)) =
           filter (\<lambda>p. \<not> (fst p \<in> set (x # xs) \<and> M (fst p))) (ent_fields s e)"
    unfolding filter_filter by (rule filter_cong) auto
  have "unset_loop e (ClassTuple ts) (x # xs) s = unset_loop e (ClassTuple ts) xs s1"
    by (simp add: s1_def M_def)
  also have "\<dots> = (Inr (), s1\<lparr>ent_fields := (ent_fields s1)(e :=
        filter (\<lambda>p. \<not> (fst p \<in> set xs \<and> M (fst p))) (ent_fields s1 e))\<rparr>)"
    unfolding Cons.IH d M_def ..
  also have "\<dots> = (Inr (), s\<lparr>ent_fields := (ent_fields s)(e :=
        filter (\<lambda>p. \<not> (fst p \<in> set (x # xs) \<and> M (fst p))) (ent_fields s e))\<rparr>)"
    unfolding st l f ..
  finally show ?case unfolding M_def .
qed

lemma unset_kinds:
  assumes "types \<noteq> []"
  shows "unset e types s =
     (Inr (), s\<lparr>ent_fields := (ent_fields s)(e :=
        filter (\<lambda>p. \<not> (\<exists>c \<in> set types. issubclass (cls (descs s (fst p))) c)) (ent_fields s e))\<rparr>)"
proof -
  have "filter (\<lambda>p. \<not> (fst p \<in> set (map fst (ent_fields s e)) \<and>
                      (\<exists>c \<in> set types. issubclass (cls (descs s (fst p))) c))) (ent_fields s e) =
        filter (\<lambda>p. \<not> (\<exists>c \<in> set types. issubclass (cls (descs s (fst p))) c)) (ent_fields s e)"
    by (rule filter_cong) auto
  then show ?thesis using assms by (simp add: unset_def unset_loop_tuple)
qed

lemma unset_default_empty: "ent_fields s e = [] \<Longrightarrow> unset e [] s = (Inr (), s)"
  by (simp add: unset_def)

text \<open>
  Claim C6 (the code departs from it). \<^verbatim>\<open>unset(entity)\<close> without kinds replaces the empty
  tuple by the list \<^verbatim>\<open>[TypedField]\<close>, and \<^verbatim>\<open>isinstance\<close> raises \<^verbatim>\<open>TypeError\<close> on a list: as
  soon as the entity stores one field, the call raises at the first key and removes
  nothing.
\<close>

theorem unset_default_raises:
  "ent_fields s e \<noteq> [] \<longrightarrow> unset e [] s = (Inl IsinstanceArg2, s)"
  by (cases "ent_fields s e") (simp_all add: unset_def)

theorem unset_default_raises_witness:
  "unset 0 [] (store 0 0 (PStr ''a'') demo_state) =
     (Inl IsinstanceArg2, store 0 0 (PStr ''a'') demo_state)
   \<and> ent_fields (store 0 0 (PStr ''a'') demo_state) 0 = [(0, PStr ''a'')]"
  using unset_default_raises [of "store 0 0 (PStr ''a'') demo_state" 0]
  by (simp add: store_def demo_state_def)

section \<open>Getting a field: properties\<close>

lemma map_of_store:
  "map_of (ent_fields (store f e v s) e) g = (if g = f then Some v else map_of (ent_fields s e) g)"
  by (simp add: store_def update_conv)

lemma get_attr_stored:
  "map_of (ent_fields s e) f = Some v \<Longrightarrow> get_attr f (Some e) s = (Value v, s)"
  by (simp add: get_attr_def)

lemma get_attr_single:
  "map_of (ent_fields s e) f = None \<Longrightarrow> \<not> multiple (descs s f) \<Longrightarrow>
   get_attr f (Some e) s = (Value PNone, s)"
  by (simp add: get_attr_def)

lemma get_attr_multiple:
  assumes "map_of (ent_fields s e) f = None" and "multiple (descs s f)"
  shows "get_attr f (Some e) s =
           (Value (PRef (heap_next s)), store f e (PRef (heap_next s)) (snd (alloc (OList []) s)))"
    and "get_attr f (Some e) (snd (get_attr f (Some e) s)) =
           (Value (PRef (heap_next s)), snd (get_attr f (Some e) s))"
    and "heap (snd (get_attr f (Some e) s)) (heap_next s) = OList []"
proof -
  show g: "get_attr f (Some e) s =
           (Value (PRef (heap_next s)), store f e (PRef (heap_next s)) (snd (alloc (OList []) s)))"
    using assms by (simp add: get_attr_def alloc_def)
  show "get_attr f (Some e) (snd (get_attr f (Some e) s)) =
           (Value (PRef (heap_next s)), snd (get_attr f (Some e) s))"
    unfolding g by (simp add: get_attr_stored map_of_store)
  show "heap (snd (get_attr f (Some e) s)) (heap_next s) = OList []"
    unfolding g by (simp add: store_def alloc_def)
qed

text \<open>
  Claim C4 (the code departs from it). On a multiple-valued field with no stored value,
  \<^verbatim>\<open>__get__\<close> stores a new plain list, \<^verbatim>\<open>[]\<close>, whatever the list class of the field is;
  \<^verbatim>\<open>__set__\<close> with \<^verbatim>\<open>None\<close> in the same state stores what the list class builds, which for a
  typed field is an empty typed list of the field's type. Every later \<^verbatim>\<open>__get__\<close> returns
  the same object, and a single-valued field without a value gives \<^verbatim>\<open>None\<close>.
\<close>

theorem get_attr_plain_list:
  "map_of (ent_fields s e) f = None \<and> multiple (descs s f) \<and>
   listclass (descs s f) = TypedListClass t \<longrightarrow>
     fst (get_attr f (Some e) s) = Value (PRef (heap_next s))
   \<and> heap (snd (get_attr f (Some e) s)) (heap_next s) = OList []
   \<and> get_attr f (Some e) (snd (get_attr f (Some e) s)) =
       (Value (PRef (heap_next s)), snd (get_attr f (Some e) s))
   \<and> fst (set_value rt f PNone s) = Inr (PRef (heap_next s))
   \<and> heap (snd (set_value rt f PNone s)) (heap_next s) = OTypedList t []"
proof (intro impI conjI)
  assume a: "map_of (ent_fields s e) f = None \<and> multiple (descs s f) \<and>
   listclass (descs s f) = TypedListClass t"
  then have n: "map_of (ent_fields s e) f = None" and m: "multiple (descs s f)"
    and l: "listclass (descs s f) = TypedListClass t" by simp_all
  show "fst (get_attr f (Some e) s) = Value (PRef (heap_next s))"
    by (simp add: get_attr_multiple(1) [OF n m])
  show "heap (snd (get_attr f (Some e) s)) (heap_next s) = OList []"
    by (rule get_attr_multiple(3) [OF n m])
  show "get_attr f (Some e) (snd (get_attr f (Some e) s)) =
       (Value (PRef (heap_next s)), snd (get_attr f (Some e) s))"
    by (rule get_attr_multiple(2) [OF n m])
  have sv: "set_value rt f PNone s =
      (Inr (PRef (heap_next s)),
       s\<lparr>heap := (heap s)(heap_next s := OTypedList t []), heap_next := Suc (heap_next s)\<rparr>)"
    using m l by (simp add: set_value_def call_listclass_def typed_list_init_def alloc_def ret_def)
  show "fst (set_value rt f PNone s) = Inr (PRef (heap_next s))" by (simp add: sv)
  show "heap (snd (set_value rt f PNone s)) (heap_next s) = OTypedList t []" by (simp add: sv)
qed

lemma demo_desc_2:
  "multiple (descs demo_state 2)"
  "listclass (descs demo_state 2) = TypedListClass (PClass ''pkg.mod.Num'')"
  "slot_type (descs demo_state 2) = PClass ''pkg.mod.Num''"
  "cls (descs demo_state 2) = TypedField"
  "preset_hook (descs demo_state 2) = None"
  "postset_hook (descs demo_state 2) = None"
  "is_type_castable (descs demo_state 2) = False"
  "ent_fields demo_state e = []"
  "heap_next demo_state = 0"
  by (simp_all add: demo_state_def demo_descs_def init_field_def getattr_try_cast_def
      demo_rt_def)

theorem get_attr_plain_list_witness:
  "fst (get_attr 2 (Some 0) demo_state) = Value (PRef 0)
   \<and> heap (snd (get_attr 2 (Some 0) demo_state)) 0 = OList []
   \<and> heap (snd (set_value demo_rt 2 PNone demo_state)) 0 = OTypedList (PClass ''pkg.mod.Num'') []"
  using get_attr_plain_list [where s = demo_state and e = 0 and f = 2 and rt = demo_rt
      and t = "PClass ''pkg.mod.Num''"]
  by (simp add: demo_desc_2)

section \<open>The Id and Idref fields: properties\<close>

lemma unset_one_kind:
  "k \<noteq> TypedField \<Longrightarrow> unset e [k] s = (Inr (), drop_kind k e s)"
proof -
  assume k: "k \<noteq> TypedField"
  have i: "issubclass c k = (c = k)" for c using k by (cases k) simp_all
  show ?thesis by (simp add: unset_kinds drop_kind_def i)
qed

lemma clean_plain:
  assumes "slot_type (descs s f) = PNone" and "\<forall>n. cls (descs s f) \<noteq> SubField n"
  shows "clean rt f v s = (Inr v, s)"
  using assms by (cases "cls (descs s f)") (simp_all add: clean_def clean_base_untyped)

lemma set_base_plain:
  assumes "plain_field (descs s f)" and "\<forall>n. cls (descs s f) \<noteq> SubField n"
  shows "set_base rt f e v s = (Inr (), store f e v s)"
proof -
  have c: "clean rt f v s = (Inr v, s)"
    using assms by (intro clean_plain) (auto simp: plain_field_def)
  have sv: "set_value rt f v s = (Inr v, s)"
    using assms c by (simp add: set_value_def plain_field_def)
  have d: "descs (store f e v s) = descs s" by (simp add: store_def)
  show ?thesis
    using assms
    by (simp add: set_base_def bnd_def sv call_hook_def ret_def d plain_field_def)
qed

lemma demo_plain:
  "plain_field (descs demo_state 0)" "plain_field (descs demo_state 1)"
  "cls (descs demo_state 0) = IdField" "cls (descs demo_state 1) = IdrefField"
  "cls (descs demo_state 4) = IdField"
  "plain_field (descs demo_state (Suc 0))" "cls (descs demo_state (Suc 0)) = IdrefField"
  by (simp_all add: demo_state_def demo_descs_def init_field_def plain_field_def)

lemma idref_state_facts:
  "descs idref_state = descs demo_state" "heap idref_state = no_heap"
  "ent_fields idref_state 0 = [(1, PStr ''Y'')]"
  by (simp_all add: idref_state_def store_def demo_state_def)

lemma idref_state_reached:
  "set_attr demo_rt 1 0 (PStr ''Y'') demo_state = (Inr (), idref_state)"
proof -
  have sb: "set_base demo_rt 1 0 (PStr ''Y'') demo_state = (Inr (), idref_state)"
    unfolding idref_state_def by (intro set_base_plain) (simp_all add: demo_plain)
  have d: "drop_kind IdField 0 idref_state = idref_state"
    by (simp add: drop_kind_def idref_state_def store_def demo_state_def demo_descs_def
        init_field_def)
  show ?thesis
    by (simp add: set_attr_def demo_plain set_idref_def bnd_def sb idref_state_facts
        unset_one_kind d del: One_nat_def)
qed


lemma map_of_update_other: "g \<noteq> f \<Longrightarrow> map_of (AList.update f v al) g = map_of al g"
  by (simp add: update_conv')

text \<open>
  Claim C1 (the code departs from it). \<^verbatim>\<open>IdField.__set__\<close> and \<^verbatim>\<open>IdrefField.__set__\<close>
  do the normal set and then test the truth value of the argument, \<^verbatim>\<open>if value:\<close>: when the
  normal set succeeds, a truthy value ends in the state of the normal set without the
  stored entries of the other kind, and every falsy value in the state of the normal set.
  The claim and the docstrings ask for the removal on every value that is not \<^verbatim>\<open>None\<close> or
  the empty string. On a plain Id or Idref field, a value that is neither \<^verbatim>\<open>None\<close> nor the
  empty string but falsy (\<open>0\<close>, \<^verbatim>\<open>False\<close>, an empty list) is stored and no entry is removed:
  every other field of the entity, those of the other kind included, keeps its value.
\<close>

theorem id_set_falsy_keeps_other_kind:
  "(set_base rt f e v s = (Inr (), s1) \<longrightarrow>
      set_id rt f e v s =
        (Inr (), if truthy rt (heap s1) v
                 then s1\<lparr>ent_fields := (ent_fields s1)(e :=
                        filter (\<lambda>p. cls (descs s1 (fst p)) \<noteq> IdrefField) (ent_fields s1 e))\<rparr>
                 else s1) \<and>
      set_idref rt f e v s =
        (Inr (), if truthy rt (heap s1) v
                 then s1\<lparr>ent_fields := (ent_fields s1)(e :=
                        filter (\<lambda>p. cls (descs s1 (fst p)) \<noteq> IdField) (ent_fields s1 e))\<rparr>
                 else s1))
   \<and> ((cls (descs s f) = IdField \<or> cls (descs s f) = IdrefField) \<and> plain_field (descs s f) \<and>
       nonempty v \<and> \<not> truthy rt (heap s) v \<longrightarrow>
       set_attr rt f e v s =
         (Inr (), s\<lparr>ent_fields := (ent_fields s)(e := AList.update f v (ent_fields s e))\<rparr>) \<and>
       map_of (ent_fields (snd (set_attr rt f e v s)) e) f = Some v \<and>
       (\<forall>g. g \<noteq> f \<longrightarrow>
          map_of (ent_fields (snd (set_attr rt f e v s)) e) g = map_of (ent_fields s e) g))"
proof (intro conjI impI)
  assume a: "set_base rt f e v s = (Inr (), s1)"
  show "set_id rt f e v s =
        (Inr (), if truthy rt (heap s1) v
                 then s1\<lparr>ent_fields := (ent_fields s1)(e :=
                        filter (\<lambda>p. cls (descs s1 (fst p)) \<noteq> IdrefField) (ent_fields s1 e))\<rparr>
                 else s1)"
    using a by (simp add: set_id_def bnd_def unset_one_kind drop_kind_def ret_def)
  show "set_idref rt f e v s =
        (Inr (), if truthy rt (heap s1) v
                 then s1\<lparr>ent_fields := (ent_fields s1)(e :=
                        filter (\<lambda>p. cls (descs s1 (fst p)) \<noteq> IdField) (ent_fields s1 e))\<rparr>
                 else s1)"
    using a by (simp add: set_idref_def bnd_def unset_one_kind drop_kind_def ret_def)
next
  assume a: "(cls (descs s f) = IdField \<or> cls (descs s f) = IdrefField) \<and>
       plain_field (descs s f) \<and> nonempty v \<and> \<not> truthy rt (heap s) v"
  then have sb: "set_base rt f e v s = (Inr (), store f e v s)"
    by (intro set_base_plain) auto
  have h: "heap (store f e v s) = heap s" by (simp add: store_def)
  show r: "set_attr rt f e v s =
      (Inr (), s\<lparr>ent_fields := (ent_fields s)(e := AList.update f v (ent_fields s e))\<rparr>)"
    using a by (auto simp: set_attr_def set_id_def set_idref_def bnd_def sb h ret_def store_def)
  show "map_of (ent_fields (snd (set_attr rt f e v s)) e) f = Some v"
    unfolding r by (simp add: update_conv')
  show "\<forall>g. g \<noteq> f \<longrightarrow>
          map_of (ent_fields (snd (set_attr rt f e v s)) e) g = map_of (ent_fields s e) g"
    unfolding r by (simp add: map_of_update_other)
qed

theorem id_set_falsy_keeps_other_kind_witness:
  "set_attr demo_rt 1 0 (PStr ''Y'') demo_state = (Inr (), idref_state)
   \<and> ent_fields idref_state 0 = [(1, PStr ''Y'')]
   \<and> cls (descs idref_state 0) = IdField \<and> cls (descs idref_state 1) = IdrefField
   \<and> nonempty (PInt 0)
   \<and> fst (set_attr demo_rt 0 0 (PInt 0) idref_state) = Inr ()
   \<and> ent_fields (snd (set_attr demo_rt 0 0 (PInt 0) idref_state)) 0 =
       [(1, PStr ''Y''), (0, PInt 0)]
   \<and> fst (set_id demo_rt 0 0 (PStr ''X'') idref_state) = Inr ()
   \<and> ent_fields (snd (set_id demo_rt 0 0 (PStr ''X'') idref_state)) 0 = [(0, PStr ''X'')]"
proof -
  have p: "plain_field (descs idref_state 0)" "\<forall>n. cls (descs idref_state 0) \<noteq> SubField n"
    "cls (descs idref_state 0) = IdField" "cls (descs idref_state 1) = IdrefField"
    by (simp_all add: idref_state_facts demo_plain del: One_nat_def)
  have sb: "set_base demo_rt 0 0 v idref_state = (Inr (), store 0 0 v idref_state)" for v
    using p(1,2) by (rule set_base_plain)
  have n: "nonempty (PInt 0)" "\<not> truthy demo_rt (heap idref_state) (PInt 0)"
    by (simp_all add: nonempty_def)
  have a: "set_attr demo_rt 0 0 (PInt 0) idref_state =
      (Inr (), idref_state\<lparr>ent_fields := (ent_fields idref_state)
         (0 := AList.update 0 (PInt 0) (ent_fields idref_state 0))\<rparr>)"
    using id_set_falsy_keeps_other_kind [where rt = demo_rt and f = 0 and e = 0
        and v = "PInt 0" and s = idref_state and ?s1.0 = "store 0 0 (PInt 0) idref_state"]
      p n
    by blast
  have b: "set_id demo_rt 0 0 (PStr ''X'') idref_state =
      (Inr (), if truthy demo_rt (heap (store 0 0 (PStr ''X'') idref_state)) (PStr ''X'')
         then (store 0 0 (PStr ''X'') idref_state)\<lparr>ent_fields :=
            (ent_fields (store 0 0 (PStr ''X'') idref_state))(0 :=
               filter (\<lambda>p. cls (descs (store 0 0 (PStr ''X'') idref_state) (fst p)) \<noteq> IdrefField)
                 (ent_fields (store 0 0 (PStr ''X'') idref_state) 0))\<rparr>
         else store 0 0 (PStr ''X'') idref_state)"
    using id_set_falsy_keeps_other_kind [where rt = demo_rt and f = 0 and e = 0
        and v = "PStr ''X''" and s = idref_state and ?s1.0 = "store 0 0 (PStr ''X'') idref_state"]
      sb
    by blast
  have c: "ent_fields (snd (set_id demo_rt 0 0 (PStr ''X'') idref_state)) 0 = [(0, PStr ''X'')]"
    unfolding b
    by (simp add: store_def idref_state_facts demo_state_def demo_descs_def init_field_def)
  have d: "fst (set_id demo_rt 0 0 (PStr ''X'') idref_state) = Inr ()"
    unfolding b by simp
  have e: "ent_fields (snd (set_attr demo_rt 0 0 (PInt 0) idref_state)) 0 =
       [(1, PStr ''Y''), (0, PInt 0)]"
    unfolding a by (simp add: idref_state_facts)
  have f: "fst (set_attr demo_rt 0 0 (PInt 0) idref_state) = Inr ()"
    unfolding a by simp
  show ?thesis
    using c d e f n(1) p(3,4) idref_state_reached idref_state_facts(3)
    by (simp del: One_nat_def)
qed
section \<open>Setting a multiple-valued field: properties\<close>

lemma imports_only_refl: "imports_only s s"
  by (simp add: imports_only_def)

lemma imports_only_iff:
  "imports_only s s1 = (\<exists>evs. trace s1 = trace s @ evs \<and> list_all is_import evs)"
proof
  assume "imports_only s s1"
  then have "trace s1 = trace s @ drop (length (trace s)) (trace s1) \<and>
             list_all is_import (drop (length (trace s)) (trace s1))"
    unfolding imports_only_def by (metis append_take_drop_id)
  then show "\<exists>evs. trace s1 = trace s @ evs \<and> list_all is_import evs" by blast
next
  assume "\<exists>evs. trace s1 = trace s @ evs \<and> list_all is_import evs"
  then show "imports_only s s1" by (auto simp: imports_only_def)
qed

lemma imports_only_trans: "imports_only s s1 \<Longrightarrow> imports_only s1 s2 \<Longrightarrow> imports_only s s2"
  unfolding imports_only_iff by auto

lemma quiet_refl: "quiet s s"
  by (simp add: quiet_def imports_only_refl)

lemma quiet_trans:
  assumes "quiet s s1" and "quiet s1 s2"
  shows "quiet s s2"
proof -
  have "descs s2 g = (descs s g)\<lparr>slot_type := slot_type (descs s2 g)\<rparr>" for g
  proof -
    from assms have a: "descs s1 g = (descs s g)\<lparr>slot_type := slot_type (descs s1 g)\<rparr>"
      and b: "descs s2 g = (descs s1 g)\<lparr>slot_type := slot_type (descs s2 g)\<rparr>"
      by (simp_all add: quiet_def)
    show ?thesis by (subst b, subst a) simp
  qed
  then show ?thesis
    using assms imports_only_trans by (auto simp: quiet_def)
qed

lemma quiet_heap_only:
  "descs s1 = descs s \<Longrightarrow> ent_fields s1 = ent_fields s \<Longrightarrow> trace s1 = trace s \<Longrightarrow> quiet s s1"
  by (simp add: quiet_def imports_only_def)

lemma quiet_attrs:
  assumes "quiet s s1"
  shows "cls (descs s1 g) = cls (descs s g)" "multiple (descs s1 g) = multiple (descs s g)"
    "listclass (descs s1 g) = listclass (descs s g)"
    "preset_hook (descs s1 g) = preset_hook (descs s g)"
    "postset_hook (descs s1 g) = postset_hook (descs s g)"
    "is_type_castable (descs s1 g) = is_type_castable (descs s g)"
    "name (descs s1 g) = name (descs s g)"
    "ent_fields s1 = ent_fields s"
proof -
  from assms have a: "descs s1 g = (descs s g)\<lparr>slot_type := slot_type (descs s1 g)\<rparr>"
    by (simp add: quiet_def)
  show "cls (descs s1 g) = cls (descs s g)" by (subst a) simp
  show "multiple (descs s1 g) = multiple (descs s g)" by (subst a) simp
  show "listclass (descs s1 g) = listclass (descs s g)" by (subst a) simp
  show "preset_hook (descs s1 g) = preset_hook (descs s g)" by (subst a) simp
  show "postset_hook (descs s1 g) = postset_hook (descs s g)" by (subst a) simp
  show "is_type_castable (descs s1 g) = is_type_castable (descs s g)" by (subst a) simp
  show "name (descs s1 g) = name (descs s g)" by (subst a) simp
  show "ent_fields s1 = ent_fields s" using assms by (simp add: quiet_def)
qed

lemma resolve_class_quiet: "resolve_class rt r s = (x, s1) \<Longrightarrow> quiet s s1"
  by (cases r)
     (auto simp: ret_def raise_def import_class_def log_event_def quiet_def imports_only_def
        split: list.splits sum.splits option.splits)

lemma type_get_quiet:
  assumes "type_get rt f s = (x, s1)"
  shows "quiet s s1"
proof (cases "resolve_class rt (slot_type (descs s f)) s")
  case (Pair y s0)
  note q = resolve_class_quiet [OF Pair]
  show ?thesis
  proof (cases y)
    case (Inl e)
    with Pair assms have "s1 = s0" by (simp add: type_get_def bnd_def)
    then show ?thesis using q by simp
  next
    case (Inr c)
    with Pair assms have s1: "s1 = set_slot_type f c s0"
      by (simp add: type_get_def bnd_def ret_def)
    have "quiet s0 s1"
      unfolding s1 by (simp add: quiet_def set_slot_type_def imports_only_def)
    with q show ?thesis by (rule quiet_trans)
  qed
qed

lemma bnd_quiet:
  assumes "bnd m k s = (x, s2)"
    and "\<And>y s1. m s = (y, s1) \<Longrightarrow> quiet s s1"
    and "\<And>a s1. m s = (Inr a, s1) \<Longrightarrow> k a s1 = (x, s2) \<Longrightarrow> quiet s1 s2"
  shows "quiet s s2"
proof (cases "m s")
  case (Pair y s1)
  show ?thesis
  proof (cases y)
    case (Inl e)
    with Pair assms(1) have "s2 = s1" by (simp add: bnd_def)
    with assms(2) [OF Pair] show ?thesis by simp
  next
    case (Inr a)
    with Pair assms(1) have "k a s1 = (x, s2)" by (simp add: bnd_def)
    with assms(3) Pair Inr have "quiet s1 s2" by blast
    with assms(2) [OF Pair] show ?thesis by (rule quiet_trans)
  qed
qed

lemma lift_quiet: "lift r s = (x, s1) \<Longrightarrow> quiet s s1"
  by (auto simp: lift_def quiet_refl)

lemma bnd_type_get_quiet:
  assumes "bnd (type_get rt f) k s = (x, s2)"
    and "\<And>a s1. k a s1 = (x, s2) \<Longrightarrow> quiet s1 s2"
  shows "quiet s s2"
  using assms(1)
proof (rule bnd_quiet)
  show "quiet s s1" if "type_get rt f s = (y, s1)" for y s1
    using that by (rule type_get_quiet)
  show "quiet s1 s2" if "k a s1 = (x, s2)" for a s1
    using that by (rule assms(2))
qed

lemma check_type_quiet: "check_type rt f v s = (x, s1) \<Longrightarrow> quiet s s1"
  unfolding check_type_def
  by (auto simp: ret_def quiet_refl split: if_splits elim!: bnd_type_get_quiet lift_quiet)

lemma clean_base_quiet: "clean_base rt f v s = (x, s1) \<Longrightarrow> quiet s s1"
  unfolding clean_base_def
  apply (simp split: if_splits add: ret_def quiet_refl)
  apply (erule bnd_type_get_quiet)
  apply (simp split: if_splits add: ret_def quiet_refl)
  apply (erule bnd_quiet)
   apply (erule check_type_quiet)
  apply (auto simp: ret_def raise_def quiet_refl split: if_splits
      elim!: bnd_type_get_quiet lift_quiet)
  done

lemma clean_quiet: "clean rt f v s = (x, s1) \<Longrightarrow> quiet s s1"
  by (auto simp: clean_def split: fcls.splits elim: clean_base_quiet lift_quiet)

lemma set_inner_quiet: "quiet s (set_inner a xs s)"
  by (rule quiet_heap_only) (simp_all add: set_inner_def)

lemma alloc_quiet: "alloc ob s = (a, s1) \<Longrightarrow> quiet s s1"
  by (auto simp: alloc_def intro: quiet_heap_only)

lemma insert_tl_quiet: "insert_tl rt self idx v s = (x, s1) \<Longrightarrow> quiet s s1"
  by (auto simp: insert_tl_def ret_def raise_def quiet_refl set_inner_quiet
      split: pyobj.splits if_splits sum.splits)

lemma append_tl_quiet: "append_tl rt self v s = (x, s1) \<Longrightarrow> quiet s s1"
  unfolding append_tl_def by (rule insert_tl_quiet)

lemma extend_tl_quiet: "extend_tl rt self vs s = (x, s1) \<Longrightarrow> quiet s s1"
proof (induction vs arbitrary: s)
  case Nil
  then show ?case by (simp add: ret_def quiet_refl)
next
  case (Cons v vs)
  obtain y s0 where a: "append_tl rt self v s = (y, s0)" by (cases "append_tl rt self v s")
  note q = append_tl_quiet [OF a]
  show ?case
  proof (cases y)
    case (Inl e)
    with Cons.prems a show ?thesis using q by simp
  next
    case (Inr u)
    with Cons.prems a have "extend_tl rt self vs s0 = (x, s1)" by simp
    from Cons.IH [OF this] q show ?thesis by (rule quiet_trans [rotated])
  qed
qed

lemma typed_list_fill_quiet: "typed_list_fill rt self items s = (x, s1) \<Longrightarrow> quiet s s1"
proof (induction items arbitrary: s)
  case Nil
  then show ?case by (simp add: ret_def quiet_refl)
next
  case (Cons item items)
  define step where "step = (if is_sequence item then extend_tl rt self (seq_items (heap s) item) s
            else append_tl rt self item s)"
  obtain y s0 where a: "step = (y, s0)" by (cases step)
  have q: "quiet s s0"
    using a unfolding step_def
    by (auto split: if_splits elim: extend_tl_quiet append_tl_quiet)
  show ?case
  proof (cases y)
    case (Inl e)
    with Cons.prems a show ?thesis using q by (simp add: step_def)
  next
    case (Inr u)
    with Cons.prems a have "typed_list_fill rt self items s0 = (x, s1)" by (simp add: step_def)
    from Cons.IH [OF this] q show ?thesis by (rule quiet_trans [rotated])
  qed
qed

lemma typed_list_init_quiet: "typed_list_init rt t args s = (x, s1) \<Longrightarrow> quiet s s1"
  unfolding typed_list_init_def
  by (auto split: prod.splits sum.splits
      dest!: alloc_quiet typed_list_fill_quiet intro: quiet_trans)

lemma call_listclass_quiet: "call_listclass rt lc arg s = (x, s1) \<Longrightarrow> quiet s s1"
  unfolding call_listclass_def
  by (auto split: listclass.splits prod.splits dest: alloc_quiet typed_list_init_quiet)

lemma clean_items_quiet: "clean_items rt f xs s = (x, s1) \<Longrightarrow> quiet s s1"
proof (induction xs arbitrary: s x s1)
  case Nil
  then show ?case by (simp add: quiet_refl)
next
  case (Cons a xs)
  show ?case
  proof (cases "a = PNone")
    case True
    with Cons show ?thesis by simp
  next
    case False
    obtain y s0 where c: "clean rt f a s = (y, s0)" by (cases "clean rt f a s")
    note q = clean_quiet [OF c]
    show ?thesis
    proof (cases y)
      case (Inl e)
      with Cons.prems False c show ?thesis using q by simp
    next
      case (Inr b)
      obtain z s2 where r: "clean_items rt f xs s0 = (z, s2)" by (cases "clean_items rt f xs s0")
      from Cons.IH [OF r] q have q2: "quiet s s2" by (rule quiet_trans [rotated])
      from Cons.prems False c Inr r have "s1 = s2" by (cases z) simp_all
      with q2 show ?thesis by simp
    qed
  qed
qed

lemma extend_gen_quiet: "extend_gen rt f self xs s = (x, s1) \<Longrightarrow> quiet s s1"
proof (induction xs arbitrary: s)
  case Nil
  then show ?case by (simp add: quiet_refl)
next
  case (Cons a xs)
  show ?case
  proof (cases "a = PNone")
    case True
    with Cons show ?thesis by simp
  next
    case False
    obtain y s0 where c: "clean rt f a s = (y, s0)" by (cases "clean rt f a s")
    note q = clean_quiet [OF c]
    show ?thesis
    proof (cases y)
      case (Inl e)
      with Cons.prems False c show ?thesis using q by simp
    next
      case (Inr b)
      obtain z s2 where r: "append_tl rt self b s0 = (z, s2)" by (cases "append_tl rt self b s0")
      from append_tl_quiet [OF r] q have q2: "quiet s s2" by (rule quiet_trans [rotated])
      show ?thesis
      proof (cases z)
        case (Inl e)
        with Cons.prems False c Inr r show ?thesis using q2 by simp
      next
        case (Inr u)
        with Cons.prems False c \<open>y = Inr b\<close> r have "extend_gen rt f self xs s2 = (x, s1)" by simp
        from Cons.IH [OF this] q2 show ?thesis by (rule quiet_trans [rotated])
      qed
    qed
  qed
qed

lemma listclass_gen_quiet: "listclass_gen rt f lc items s = (x, s1) \<Longrightarrow> quiet s s1"
  unfolding listclass_gen_def
  by (auto split: listclass.splits prod.splits sum.splits
      dest!: alloc_quiet clean_items_quiet extend_gen_quiet intro: quiet_trans)

lemma set_value_quiet:
  assumes "set_value rt f v s = (x, s1)"
  shows "quiet s s1"
proof (cases "multiple (descs s f)")
  case False
  with assms show ?thesis by (auto simp: set_value_def elim: clean_quiet)
next
  case True
  show ?thesis
  proof (cases "v = PNone")
    case n: True
    with assms True show ?thesis by (auto simp: set_value_def elim: call_listclass_quiet)
  next
    case n: False
    show ?thesis
    proof (cases "is_sequence v")
      case s: True
      with assms True n show ?thesis by (auto simp: set_value_def elim: listclass_gen_quiet)
    next
      case s: False
      with assms True n
      have b: "bnd (clean rt f v)
             (\<lambda>c s1. case alloc (OList [c]) s1 of
                       (a, s2) \<Rightarrow> call_listclass rt (listclass (descs s f)) (Some a) s2) s = (x, s1)"
        by (simp add: set_value_def)
      then show ?thesis
      proof (rule bnd_quiet)
        show "quiet s s0" if "clean rt f v s = (y, s0)" for y s0
          using that by (rule clean_quiet)
        show "quiet s0 s1"
          if "(case alloc (OList [c]) s0 of
                 (a, s2) \<Rightarrow> call_listclass rt (listclass (descs s f)) (Some a) s2) = (x, s1)"
          for c s0
          using that
          by (auto split: prod.splits dest!: alloc_quiet call_listclass_quiet intro: quiet_trans)
      qed
    qed
  qed
qed

lemma set_value_None:
  assumes "multiple (descs s f)"
  shows "set_value rt f PNone s =
     (Inr (PRef (heap_next s)),
      s\<lparr>heap := (heap s)(heap_next s :=
            (case listclass (descs s f) of
               ListClass \<Rightarrow> OList []
             | TypedListClass t \<Rightarrow> OTypedList t [])),
        heap_next := Suc (heap_next s)\<rparr>)"
  using assms
  by (simp add: set_value_def call_listclass_def typed_list_init_def alloc_def ret_def
      split: listclass.splits)

lemma set_value_scalar_plain:
  assumes "multiple (descs s f)" and "v \<noteq> PNone" and "\<not> is_sequence v"
    and "clean rt f v s = (Inr c, s1)" and "listclass (descs s f) = ListClass"
  shows "set_value rt f v s =
     (Inr (PRef (Suc (heap_next s1))),
      s1\<lparr>heap := (heap s1)(heap_next s1 := OList [c], Suc (heap_next s1) := OList [c]),
         heap_next := Suc (Suc (heap_next s1))\<rparr>)"
  using assms by (simp add: set_value_def bnd_def call_listclass_def alloc_def)

lemma set_value_scalar_typed:
  assumes "multiple (descs s f)" and "v \<noteq> PNone" and "\<not> is_sequence v"
    and "clean rt f v s = (Inr c, s1)" and "listclass (descs s f) = TypedListClass t"
    and "h3 = (heap s1)(heap_next s1 := OList [c], Suc (heap_next s1) := OTypedList t [])"
  shows "\<not> truthy rt h3 c \<Longrightarrow>
           set_value rt f v s =
             (Inr (PRef (Suc (heap_next s1))),
              s1\<lparr>heap := h3, heap_next := Suc (Suc (heap_next s1))\<rparr>)"
    and "truthy rt h3 c \<Longrightarrow> valid_or_fixed rt h3 t c = Inr nv \<Longrightarrow>
           set_value rt f v s =
             (Inr (PRef (Suc (heap_next s1))),
              s1\<lparr>heap := h3(Suc (heap_next s1) := OTypedList t [nv]),
                 heap_next := Suc (Suc (heap_next s1))\<rparr>)"
proof -
  show "set_value rt f v s =
             (Inr (PRef (Suc (heap_next s1))),
              s1\<lparr>heap := h3, heap_next := Suc (Suc (heap_next s1))\<rparr>)"
    if "\<not> truthy rt h3 c"
    using assms that
    by (simp add: set_value_def bnd_def call_listclass_def typed_list_init_def alloc_def
        append_tl_def insert_tl_def ret_def)
  show "set_value rt f v s =
             (Inr (PRef (Suc (heap_next s1))),
              s1\<lparr>heap := h3(Suc (heap_next s1) := OTypedList t [nv]),
                 heap_next := Suc (Suc (heap_next s1))\<rparr>)"
    if "truthy rt h3 c" and "valid_or_fixed rt h3 t c = Inr nv"
    using assms that
    by (simp add: set_value_def bnd_def call_listclass_def typed_list_init_def alloc_def
        append_tl_def insert_tl_def ret_def set_inner_def list_insert_def)
qed

lemma clean_items_pure:
  assumes "\<forall>x \<in> set xs. x \<noteq> PNone \<longrightarrow> clean rt f x s = (Inr (g x), s)"
  shows "clean_items rt f xs s = (Inr (map g (filter (\<lambda>x. x \<noteq> PNone) xs)), s)"
  using assms by (induction xs) simp_all

lemma set_inner_twice: "set_inner a ys (set_inner a xs s) = set_inner a ys s"
  by (simp add: set_inner_def split: pyobj.splits)

lemma list_insert_end: "list_insert xs (int (length xs)) v = xs @ [v]"
  by (simp add: list_insert_def)

lemma extend_gen_pure:
  assumes "\<forall>x \<in> set xs. x \<noteq> PNone \<longrightarrow>
             (\<forall>s'. descs s' = descs s \<longrightarrow> clean rt f x s' = (Inr (g x), s'))"
    and "\<forall>x \<in> set xs. \<forall>h. truthy rt h (g x) = tr x"
    and "\<forall>x \<in> set xs. \<forall>h. tr x \<longrightarrow> valid_or_fixed rt h t (g x) = Inr (k x)"
    and "heap s self = OTypedList t acc"
  shows "extend_gen rt f self xs s =
     (Inr (), set_inner self (acc @ map k (filter tr (filter (\<lambda>x. x \<noteq> PNone) xs))) s)"
  using assms
proof (induction xs arbitrary: s acc)
  case Nil
  have "(heap s)(self := OTypedList t acc) = heap s"
    using Nil.prems(4) by (metis fun_upd_triv)
  then have "set_inner self acc s = s"
    using Nil.prems(4) by (simp add: set_inner_def)
  then show ?case by simp
next
  case (Cons x xs)
  have d: "descs (set_inner self ys s) = descs s" for ys by (simp add: set_inner_def)
  have hp: "heap (set_inner self ys s) self = OTypedList t ys" for ys
    using Cons.prems(4) by (simp add: set_inner_def)
  have ih: "extend_gen rt f self xs s' =
     (Inr (), set_inner self (acc' @ map k (filter tr (filter (\<lambda>x. x \<noteq> PNone) xs))) s')"
    if "descs s' = descs s" and "heap s' self = OTypedList t acc'" for s' acc'
    using Cons.prems(1-3) that by (intro Cons.IH) auto
  show ?case
  proof (cases "x = PNone")
    case True
    then show ?thesis using ih [OF refl Cons.prems(4)] by simp
  next
    case False
    with Cons.prems(1) have c: "clean rt f x s = (Inr (g x), s)" by simp
    show ?thesis
    proof (cases "tr x")
      case t: False
      with Cons.prems(2) have "\<not> truthy rt (heap s) (g x)" by simp
      then have a: "append_tl rt self (g x) s = (Inr (), s)"
        using Cons.prems(4) by (simp add: append_tl_def insert_tl_def ret_def)
      show ?thesis using False c a t ih [OF refl Cons.prems(4)] by simp
    next
      case t: True
      with Cons.prems(2,3) have tv: "truthy rt (heap s) (g x)"
        "valid_or_fixed rt (heap s) t (g x) = Inr (k x)" by simp_all
      have a: "append_tl rt self (g x) s = (Inr (), set_inner self (acc @ [k x]) s)"
        using Cons.prems(4) tv
        by (simp add: append_tl_def insert_tl_def ret_def list_insert_end)
      show ?thesis
        using False c a t ih [OF d hp, of "acc @ [k x]"] by (simp add: set_inner_twice)
    qed
  qed
qed

lemma set_value_sequence_plain:
  assumes "multiple (descs s f)" and "listclass (descs s f) = ListClass"
    and "\<forall>x \<in> set (inner (heap s b)). x \<noteq> PNone \<longrightarrow> clean rt f x s = (Inr (g x), s)"
  shows "set_value rt f (PRef b) s =
     (Inr (PRef (heap_next s)),
      s\<lparr>heap := (heap s)(heap_next s :=
            OList (map g (filter (\<lambda>x. x \<noteq> PNone) (inner (heap s b))))),
        heap_next := Suc (heap_next s)\<rparr>)"
  using assms
  by (simp add: set_value_def listclass_gen_def clean_items_pure [OF assms(3)] alloc_def)

lemma set_value_sequence_typed:
  assumes "multiple (descs s f)" and "listclass (descs s f) = TypedListClass t"
    and "\<forall>x \<in> set (inner (heap s b)). x \<noteq> PNone \<longrightarrow>
             (\<forall>s'. descs s' = descs s \<longrightarrow> clean rt f x s' = (Inr (g x), s'))"
    and "\<forall>x \<in> set (inner (heap s b)). \<forall>h. truthy rt h (g x) = tr x"
    and "\<forall>x \<in> set (inner (heap s b)). \<forall>h. tr x \<longrightarrow> valid_or_fixed rt h t (g x) = Inr (k x)"
  shows "set_value rt f (PRef b) s =
     (Inr (PRef (heap_next s)),
      s\<lparr>heap := (heap s)(heap_next s :=
            OTypedList t (map k (filter tr (filter (\<lambda>x. x \<noteq> PNone) (inner (heap s b)))))),
        heap_next := Suc (heap_next s)\<rparr>)"
proof -
  define s0 where "s0 = s\<lparr>heap := (heap s)(heap_next s := OTypedList t []),
                          heap_next := Suc (heap_next s)\<rparr>"
  have d: "descs s0 = descs s" and h: "heap s0 (heap_next s) = OTypedList t []"
    by (simp_all add: s0_def)
  have p1: "\<forall>x \<in> set (inner (heap s b)). x \<noteq> PNone \<longrightarrow>
             (\<forall>s'. descs s' = descs s0 \<longrightarrow> clean rt f x s' = (Inr (g x), s'))"
    using assms(3) d by simp
  have e: "extend_gen rt f (heap_next s) (inner (heap s b)) s0 =
     (Inr (), set_inner (heap_next s)
                ([] @ map k (filter tr (filter (\<lambda>x. x \<noteq> PNone) (inner (heap s b))))) s0)"
    using p1 assms(4,5) h by (rule extend_gen_pure)
  show ?thesis
    using assms(1,2)
    by (simp add: set_value_def listclass_gen_def alloc_def e [unfolded s0_def])
       (simp add: set_inner_def)
qed

lemma call_hook_trace:
  "trace (snd (call_hook rt h e v ev s)) = trace s @ (case h of None \<Rightarrow> [] | Some n \<Rightarrow> [ev])"
  by (simp add: call_hook_def split: option.splits prod.splits)

lemma set_base_hooks:
  assumes "set_value rt f v s = (Inr val, s1)"
    and "call_hook rt (preset_hook (descs s f)) e val (EvPreHook f e val) s1 = (Inr (), s2)"
  shows "set_base rt f e v s =
           call_hook rt (postset_hook (descs (store f e val s2) f)) e val (EvPostHook f e val)
             (store f e val s2)"
    and "trace s2 =
           trace s1 @ (case preset_hook (descs s f) of None \<Rightarrow> [] | Some p \<Rightarrow> [EvPreHook f e val])"
    and "trace (snd (set_base rt f e v s)) =
           trace s2 @ (case postset_hook (descs (store f e val s2) f) of
                         None \<Rightarrow> [] | Some q \<Rightarrow> [EvPostHook f e val])"
proof -
  have p: "preset_hook (descs s1 f) = preset_hook (descs s f)"
    using set_value_quiet [OF assms(1)] by (rule quiet_attrs)
  show sb: "set_base rt f e v s =
           call_hook rt (postset_hook (descs (store f e val s2) f)) e val (EvPostHook f e val)
             (store f e val s2)"
    using assms by (simp add: set_base_def bnd_def p ret_def)
  show "trace s2 =
           trace s1 @ (case preset_hook (descs s f) of None \<Rightarrow> [] | Some p \<Rightarrow> [EvPreHook f e val])"
    using call_hook_trace [of rt "preset_hook (descs s f)" e val "EvPreHook f e val" s1] assms(2)
    by simp
  show "trace (snd (set_base rt f e v s)) =
           trace s2 @ (case postset_hook (descs (store f e val s2) f) of
                         None \<Rightarrow> [] | Some q \<Rightarrow> [EvPostHook f e val])"
    unfolding sb by (simp add: call_hook_trace store_def)
qed

text \<open>
  Claim C3, as amended. For a multiple-valued field, \<^verbatim>\<open>__set__\<close> builds the value it stores
  as follows. For \<^verbatim>\<open>None\<close>: a new empty sequence of the list class of the field, a plain
  list for a field without a type and a typed list otherwise. For a value that is no
  sequence: the list class applied to the one-element list of the cleaned value, which is
  the plain list of the cleaned value for a field without a type; a typed list skips the
  cleaned value when it is falsy, and otherwise holds it after validation or coercion. For a
  sequence: the cleaned items other than \<^verbatim>\<open>None\<close>, in order, as a plain list for a field
  without a type; a typed list skips the falsy cleaned items and holds the others after
  validation or coercion (stated for an environment in which cleaning, truth value and
  validation do not depend on the state). Building the value calls no hook. Then the
  pre-set hook, if the field has one, is called once with the whole value, the value is
  stored, and the post-set hook, if there is one, is called once with the whole value.
\<close>

theorem set_multiple_contract:
  "multiple (descs s f) \<longrightarrow>
     set_value rt f PNone s =
       (Inr (PRef (heap_next s)),
        s\<lparr>heap := (heap s)(heap_next s :=
              (case listclass (descs s f) of
                 ListClass \<Rightarrow> OList []
               | TypedListClass t \<Rightarrow> OTypedList t [])),
          heap_next := Suc (heap_next s)\<rparr>)
   \<and> (v \<noteq> PNone \<and> \<not> is_sequence v \<and> clean rt f v s = (Inr c, s1) \<and>
      listclass (descs s f) = ListClass \<longrightarrow>
        set_value rt f v s =
          (Inr (PRef (Suc (heap_next s1))),
           s1\<lparr>heap := (heap s1)(heap_next s1 := OList [c], Suc (heap_next s1) := OList [c]),
              heap_next := Suc (Suc (heap_next s1))\<rparr>))
   \<and> (v \<noteq> PNone \<and> \<not> is_sequence v \<and> clean rt f v s = (Inr c, s1) \<and>
      listclass (descs s f) = TypedListClass t \<and>
      h3 = (heap s1)(heap_next s1 := OList [c], Suc (heap_next s1) := OTypedList t []) \<longrightarrow>
        (\<not> truthy rt h3 c \<longrightarrow>
           set_value rt f v s =
             (Inr (PRef (Suc (heap_next s1))),
              s1\<lparr>heap := h3, heap_next := Suc (Suc (heap_next s1))\<rparr>))
      \<and> (truthy rt h3 c \<and> valid_or_fixed rt h3 t c = Inr nv \<longrightarrow>
           set_value rt f v s =
             (Inr (PRef (Suc (heap_next s1))),
              s1\<lparr>heap := h3(Suc (heap_next s1) := OTypedList t [nv]),
                 heap_next := Suc (Suc (heap_next s1))\<rparr>)))
   \<and> (listclass (descs s f) = ListClass \<and>
      (\<forall>x \<in> set (inner (heap s b)). x \<noteq> PNone \<longrightarrow> clean rt f x s = (Inr (g x), s)) \<longrightarrow>
        set_value rt f (PRef b) s =
          (Inr (PRef (heap_next s)),
           s\<lparr>heap := (heap s)(heap_next s :=
                 OList (map g (filter (\<lambda>x. x \<noteq> PNone) (inner (heap s b))))),
             heap_next := Suc (heap_next s)\<rparr>))
   \<and> (listclass (descs s f) = TypedListClass t \<and>
      (\<forall>x \<in> set (inner (heap s b)). x \<noteq> PNone \<longrightarrow>
         (\<forall>s'. descs s' = descs s \<longrightarrow> clean rt f x s' = (Inr (g x), s'))) \<and>
      (\<forall>x \<in> set (inner (heap s b)). \<forall>h. truthy rt h (g x) = tr x) \<and>
      (\<forall>x \<in> set (inner (heap s b)). \<forall>h. tr x \<longrightarrow> valid_or_fixed rt h t (g x) = Inr (k x)) \<longrightarrow>
        set_value rt f (PRef b) s =
          (Inr (PRef (heap_next s)),
           s\<lparr>heap := (heap s)(heap_next s :=
                 OTypedList t (map k (filter tr (filter (\<lambda>x. x \<noteq> PNone) (inner (heap s b)))))),
             heap_next := Suc (heap_next s)\<rparr>))
   \<and> (set_value rt f v s = (Inr val, s1) \<longrightarrow>
        imports_only s s1 \<and> ent_fields s1 = ent_fields s
      \<and> (call_hook rt (preset_hook (descs s f)) e val (EvPreHook f e val) s1 = (Inr (), s2) \<longrightarrow>
           set_base rt f e v s =
             call_hook rt (postset_hook (descs (store f e val s2) f)) e val (EvPostHook f e val)
               (store f e val s2)
         \<and> map_of (ent_fields (store f e val s2) e) f = Some val
         \<and> trace s2 =
             trace s1 @ (case preset_hook (descs s f) of
                           None \<Rightarrow> [] | Some p \<Rightarrow> [EvPreHook f e val])
         \<and> trace (snd (set_base rt f e v s)) =
             trace s2 @ (case postset_hook (descs (store f e val s2) f) of
                           None \<Rightarrow> [] | Some q \<Rightarrow> [EvPostHook f e val])))"
proof (intro impI conjI)
  assume m: "multiple (descs s f)"
  show "set_value rt f PNone s =
       (Inr (PRef (heap_next s)),
        s\<lparr>heap := (heap s)(heap_next s :=
              (case listclass (descs s f) of
                 ListClass \<Rightarrow> OList []
               | TypedListClass t \<Rightarrow> OTypedList t [])),
          heap_next := Suc (heap_next s)\<rparr>)"
    using m by (rule set_value_None)
  show "set_value rt f v s =
          (Inr (PRef (Suc (heap_next s1))),
           s1\<lparr>heap := (heap s1)(heap_next s1 := OList [c], Suc (heap_next s1) := OList [c]),
              heap_next := Suc (Suc (heap_next s1))\<rparr>)"
    if "v \<noteq> PNone \<and> \<not> is_sequence v \<and> clean rt f v s = (Inr c, s1) \<and>
      listclass (descs s f) = ListClass"
    using m that by (intro set_value_scalar_plain) simp_all
  show "set_value rt f (PRef b) s =
          (Inr (PRef (heap_next s)),
           s\<lparr>heap := (heap s)(heap_next s :=
                 OList (map g (filter (\<lambda>x. x \<noteq> PNone) (inner (heap s b))))),
             heap_next := Suc (heap_next s)\<rparr>)"
    if "listclass (descs s f) = ListClass \<and>
      (\<forall>x \<in> set (inner (heap s b)). x \<noteq> PNone \<longrightarrow> clean rt f x s = (Inr (g x), s))"
  proof -
    from that have l: "listclass (descs s f) = ListClass"
      and c: "\<forall>x \<in> set (inner (heap s b)). x \<noteq> PNone \<longrightarrow> clean rt f x s = (Inr (g x), s)"
      by blast+
    show ?thesis using m l c by (rule set_value_sequence_plain)
  qed
  show "set_value rt f (PRef b) s =
          (Inr (PRef (heap_next s)),
           s\<lparr>heap := (heap s)(heap_next s :=
                 OTypedList t (map k (filter tr (filter (\<lambda>x. x \<noteq> PNone) (inner (heap s b)))))),
             heap_next := Suc (heap_next s)\<rparr>)"
    if "listclass (descs s f) = TypedListClass t \<and>
      (\<forall>x \<in> set (inner (heap s b)). x \<noteq> PNone \<longrightarrow>
         (\<forall>s'. descs s' = descs s \<longrightarrow> clean rt f x s' = (Inr (g x), s'))) \<and>
      (\<forall>x \<in> set (inner (heap s b)). \<forall>h. truthy rt h (g x) = tr x) \<and>
      (\<forall>x \<in> set (inner (heap s b)). \<forall>h. tr x \<longrightarrow> valid_or_fixed rt h t (g x) = Inr (k x))"
  proof -
    from that have l: "listclass (descs s f) = TypedListClass t"
      and c: "\<forall>x \<in> set (inner (heap s b)). x \<noteq> PNone \<longrightarrow>
         (\<forall>s'. descs s' = descs s \<longrightarrow> clean rt f x s' = (Inr (g x), s'))"
      and t: "\<forall>x \<in> set (inner (heap s b)). \<forall>h. truthy rt h (g x) = tr x"
      and w: "\<forall>x \<in> set (inner (heap s b)). \<forall>h. tr x \<longrightarrow> valid_or_fixed rt h t (g x) = Inr (k x)"
      by blast+
    show ?thesis using m l c t w by (rule set_value_sequence_typed)
  qed
next
  assume m: "multiple (descs s f)"
  assume a: "v \<noteq> PNone \<and> \<not> is_sequence v \<and> clean rt f v s = (Inr c, s1) \<and>
      listclass (descs s f) = TypedListClass t \<and>
      h3 = (heap s1)(heap_next s1 := OList [c], Suc (heap_next s1) := OTypedList t [])"
  then have a1: "v \<noteq> PNone" and a2: "\<not> is_sequence v" and a3: "clean rt f v s = (Inr c, s1)"
    and a4: "listclass (descs s f) = TypedListClass t"
    and a5: "h3 = (heap s1)(heap_next s1 := OList [c], Suc (heap_next s1) := OTypedList t [])"
    by simp_all
  show "set_value rt f v s =
             (Inr (PRef (Suc (heap_next s1))),
              s1\<lparr>heap := h3, heap_next := Suc (Suc (heap_next s1))\<rparr>)"
    if "\<not> truthy rt h3 c"
    using m a1 a2 a3 a4 a5 that by (rule set_value_scalar_typed(1))
  show "set_value rt f v s =
             (Inr (PRef (Suc (heap_next s1))),
              s1\<lparr>heap := h3(Suc (heap_next s1) := OTypedList t [nv]),
                 heap_next := Suc (Suc (heap_next s1))\<rparr>)"
    if "truthy rt h3 c \<and> valid_or_fixed rt h3 t c = Inr nv"
    using set_value_scalar_typed(2) [OF m a1 a2 a3 a4 a5] that by simp
next
  assume sv: "set_value rt f v s = (Inr val, s1)"
  note q = set_value_quiet [OF sv]
  show "imports_only s s1" using q by (simp add: quiet_def)
  show "ent_fields s1 = ent_fields s" using q by (simp add: quiet_def)
  assume h: "call_hook rt (preset_hook (descs s f)) e val (EvPreHook f e val) s1 = (Inr (), s2)"
  show "set_base rt f e v s =
             call_hook rt (postset_hook (descs (store f e val s2) f)) e val (EvPostHook f e val)
               (store f e val s2)"
    using sv h by (rule set_base_hooks(1))
  show "map_of (ent_fields (store f e val s2) e) f = Some val" by (simp add: map_of_store)
  show "trace s2 =
             trace s1 @ (case preset_hook (descs s f) of
                           None \<Rightarrow> [] | Some p \<Rightarrow> [EvPreHook f e val])"
    using sv h by (rule set_base_hooks(2))
  show "trace (snd (set_base rt f e v s)) =
             trace s2 @ (case postset_hook (descs (store f e val s2) f) of
                           None \<Rightarrow> [] | Some q \<Rightarrow> [EvPostHook f e val])"
    using sv h by (rule set_base_hooks(3))
qed

lemma set_base_no_hooks:
  assumes "set_value rt f v s = (Inr val, s1)"
    and "preset_hook (descs s f) = None" and "postset_hook (descs s f) = None"
  shows "set_base rt f e v s = (Inr (), store f e val s1)"
proof -
  note q = set_value_quiet [OF assms(1)]
  have h: "call_hook rt (preset_hook (descs s f)) e val (EvPreHook f e val) s1 = (Inr (), s1)"
    using assms(2) by (simp add: call_hook_def)
  have p: "postset_hook (descs (store f e val s1) f) = None"
    using quiet_attrs(5) [OF q, of f] assms(3) by (simp add: store_def)
  show ?thesis
    unfolding set_base_hooks(1) [OF assms(1) h] p by (simp add: call_hook_def)
qed

lemma demo_clean_num:
  assumes "descs s' = demo_descs"
  shows "clean demo_rt 2 (PInt n) s' = (Inr (PInt n), s')"
proof -
  have r: "slot_type (descs s' 2) = PClass ''pkg.mod.Num''" "cls (descs s' 2) = TypedField"
    using assms by (simp_all add: demo_descs_def init_field_def)
  show ?thesis
    by (simp add: clean_def r clean_base_class [OF r(1)] check_type_class [OF r(1)] demo_rt_def)
qed

lemma demo_clean_untyped:
  assumes "descs s' = demo_descs" and "f = 5 \<or> f = 6"
  shows "clean demo_rt f x s' = (Inr x, s')"
  using assms by (intro clean_plain) (auto simp: demo_descs_def init_field_def)

lemma demo_multiple:
  "multiple (demo_descs 2)" "listclass (demo_descs 2) = TypedListClass (PClass ''pkg.mod.Num'')"
  "multiple (demo_descs 5)" "listclass (demo_descs 5) = ListClass"
  "multiple (demo_descs 6)" "listclass (demo_descs 6) = ListClass"
  "preset_hook (demo_descs 6) = Some 0" "postset_hook (demo_descs 6) = Some 1"
  "preset_hook (demo_descs 2) = None" "postset_hook (demo_descs 2) = None"
  by (simp_all add: demo_descs_def init_field_def demo_rt_def)

lemma demo_states:
  "descs demo_state = demo_descs" "heap demo_state = no_heap" "heap_next demo_state = 0"
  "trace demo_state = []"
  "descs list_state = demo_descs" "heap_next list_state = 1" "trace list_state = []"
  "heap list_state = no_heap(0 := OList [PNone, PInt 3, PInt 0, PInt 4])"
  "inner (heap list_state 0) = [PNone, PInt 3, PInt 0, PInt 4]"
  by (simp_all add: demo_state_def list_state_def)

lemma demo_valid_num:
  "valid_or_fixed demo_rt h (PClass ''pkg.mod.Num'') (PInt n) = Inr (PInt n)"
  by (simp add: valid_or_fixed_def demo_num_facts)

theorem set_multiple_contract_witness:
  "set_value demo_rt 2 PNone demo_state =
     (Inr (PRef 0),
      demo_state\<lparr>heap := no_heap(0 := OTypedList (PClass ''pkg.mod.Num'') []), heap_next := 1\<rparr>)
   \<and> set_value demo_rt 5 (PStr ''a'') demo_state =
       (Inr (PRef 1),
        demo_state\<lparr>heap := no_heap(0 := OList [PStr ''a''], 1 := OList [PStr ''a'']),
          heap_next := 2\<rparr>)
   \<and> set_value demo_rt 2 (PInt 7) demo_state =
       (Inr (PRef 1),
        demo_state\<lparr>heap := no_heap(0 := OList [PInt 7],
                                   1 := OTypedList (PClass ''pkg.mod.Num'') [PInt 7]),
          heap_next := 2\<rparr>)
   \<and> set_value demo_rt 2 (PInt 0) demo_state =
       (Inr (PRef 1),
        demo_state\<lparr>heap := no_heap(0 := OList [PInt 0],
                                   1 := OTypedList (PClass ''pkg.mod.Num'') []),
          heap_next := 2\<rparr>)
   \<and> set_value demo_rt 5 (PRef 0) list_state =
       (Inr (PRef 1),
        list_state\<lparr>heap := (heap list_state)(1 := OList [PInt 3, PInt 0, PInt 4]),
          heap_next := 2\<rparr>)
   \<and> set_value demo_rt 2 (PRef 0) list_state =
       (Inr (PRef 1),
        list_state\<lparr>heap := (heap list_state)(1 := OTypedList (PClass ''pkg.mod.Num'')
                                                     [PInt 3, PInt 4]),
          heap_next := 2\<rparr>)
   \<and> trace (snd (set_base demo_rt 6 0 PNone demo_state)) =
       [EvPreHook 6 0 (PRef 0), EvPostHook 6 0 (PRef 0)]"
proof -
  note ds = demo_states and dm = demo_multiple
  have a: "set_value demo_rt 2 PNone demo_state =
     (Inr (PRef 0),
      demo_state\<lparr>heap := no_heap(0 := OTypedList (PClass ''pkg.mod.Num'') []), heap_next := 1\<rparr>)"
    using set_multiple_contract [where rt = demo_rt and f = 2 and s = demo_state]
    by (simp add: ds dm)
  have b: "set_value demo_rt 5 (PStr ''a'') demo_state =
       (Inr (PRef 1),
        demo_state\<lparr>heap := no_heap(0 := OList [PStr ''a''], 1 := OList [PStr ''a'']),
          heap_next := 2\<rparr>)"
    using set_multiple_contract [where rt = demo_rt and f = 5 and s = demo_state
        and v = "PStr ''a''" and c = "PStr ''a''" and ?s1.0 = demo_state]
      demo_clean_untyped [of demo_state 5 "PStr ''a''"]
    by (simp add: ds dm numeral_2_eq_2 [symmetric])
  have c: "set_value demo_rt 2 (PInt 7) demo_state =
       (Inr (PRef 1),
        demo_state\<lparr>heap := no_heap(0 := OList [PInt 7],
                                   1 := OTypedList (PClass ''pkg.mod.Num'') [PInt 7]),
          heap_next := 2\<rparr>)"
    using set_multiple_contract [where rt = demo_rt and f = 2 and s = demo_state
        and v = "PInt 7" and c = "PInt 7" and ?s1.0 = demo_state and nv = "PInt 7"
        and t = "PClass ''pkg.mod.Num''"
        and ?h3.0 = "no_heap(0 := OList [PInt 7], Suc 0 := OTypedList (PClass ''pkg.mod.Num'') [])"]
      demo_clean_num [of demo_state 7]
    by (simp add: ds dm demo_valid_num numeral_2_eq_2 [symmetric])
  have d: "set_value demo_rt 2 (PInt 0) demo_state =
       (Inr (PRef 1),
        demo_state\<lparr>heap := no_heap(0 := OList [PInt 0],
                                   1 := OTypedList (PClass ''pkg.mod.Num'') []),
          heap_next := 2\<rparr>)"
    using set_multiple_contract [where rt = demo_rt and f = 2 and s = demo_state
        and v = "PInt 0" and c = "PInt 0" and ?s1.0 = demo_state
        and t = "PClass ''pkg.mod.Num''"
        and ?h3.0 = "no_heap(0 := OList [PInt 0], Suc 0 := OTypedList (PClass ''pkg.mod.Num'') [])"]
      demo_clean_num [of demo_state 0]
    by (simp add: ds dm numeral_2_eq_2 [symmetric])
  have e: "set_value demo_rt 5 (PRef 0) list_state =
       (Inr (PRef 1),
        list_state\<lparr>heap := (heap list_state)(1 := OList [PInt 3, PInt 0, PInt 4]),
          heap_next := 2\<rparr>)"
    using set_multiple_contract [where rt = demo_rt and f = 5 and s = list_state
        and b = 0 and g = "\<lambda>x. x"]
      demo_clean_untyped [of list_state 5]
    by (simp add: ds dm numeral_2_eq_2 [symmetric])
  have f1: "multiple (descs list_state 2)"
    "listclass (descs list_state 2) = TypedListClass (PClass ''pkg.mod.Num'')"
    by (simp_all add: ds dm)
  have f2: "\<forall>x \<in> set (inner (heap list_state 0)). x \<noteq> PNone \<longrightarrow>
         (\<forall>s'. descs s' = descs list_state \<longrightarrow> clean demo_rt 2 x s' = (Inr x, s'))"
    by (simp add: ds demo_clean_num)
  have f3: "\<forall>x \<in> set (inner (heap list_state 0)). \<forall>h. truthy demo_rt h x = truthy demo_rt no_heap x"
    by (simp add: ds)
  have f4: "\<forall>x \<in> set (inner (heap list_state 0)). \<forall>h. truthy demo_rt no_heap x \<longrightarrow>
         valid_or_fixed demo_rt h (PClass ''pkg.mod.Num'') x = Inr x"
    by (simp add: ds demo_valid_num)
  have f0: "set_value demo_rt 2 (PRef 0) list_state =
          (Inr (PRef (heap_next list_state)),
           list_state\<lparr>heap := (heap list_state)(heap_next list_state :=
                 OTypedList (PClass ''pkg.mod.Num'')
                   (map (\<lambda>x. x) (filter (\<lambda>x. truthy demo_rt no_heap x)
                      (filter (\<lambda>x. x \<noteq> PNone) (inner (heap list_state 0)))))),
             heap_next := Suc (heap_next list_state)\<rparr>)"
    using set_multiple_contract [where rt = demo_rt and f = 2 and s = list_state
        and b = 0 and g = "\<lambda>x. x" and k = "\<lambda>x. x" and tr = "\<lambda>x. truthy demo_rt no_heap x"
        and t = "PClass ''pkg.mod.Num''"]
      f1 f2 f3 f4
    by blast
  have f: "set_value demo_rt 2 (PRef 0) list_state =
       (Inr (PRef 1),
        list_state\<lparr>heap := (heap list_state)(1 := OTypedList (PClass ''pkg.mod.Num'')
                                                     [PInt 3, PInt 4]),
          heap_next := 2\<rparr>)"
    unfolding f0 by (simp add: ds numeral_2_eq_2 [symmetric])
  have g0: "set_value demo_rt 6 PNone demo_state =
      (Inr (PRef 0), demo_state\<lparr>heap := no_heap(0 := OList []), heap_next := 1\<rparr>)"
    by (simp add: set_value_None ds dm)
  have g1: "call_hook demo_rt (preset_hook (descs demo_state 6)) 0 (PRef 0) (EvPreHook 6 0 (PRef 0))
              (demo_state\<lparr>heap := no_heap(0 := OList []), heap_next := 1\<rparr>) =
            (Inr (), demo_state\<lparr>heap := no_heap(0 := OList []), heap_next := 1,
                                 trace := [EvPreHook 6 0 (PRef 0)]\<rparr>)"
    by (simp add: call_hook_def ds dm demo_rt_def)
  have g2: "multiple (descs demo_state 6)" by (simp add: ds dm)
  have g3: "trace (snd (set_base demo_rt 6 0 PNone demo_state)) =
      trace (demo_state\<lparr>heap := no_heap(0 := OList []), heap_next := 1,
                                 trace := [EvPreHook 6 0 (PRef 0)]\<rparr>) @
        (case postset_hook (descs (store 6 0 (PRef 0)
                 (demo_state\<lparr>heap := no_heap(0 := OList []), heap_next := 1,
                                 trace := [EvPreHook 6 0 (PRef 0)]\<rparr>)) 6) of
           None \<Rightarrow> [] | Some q \<Rightarrow> [EvPostHook 6 0 (PRef 0)])"
    using set_multiple_contract [where rt = demo_rt and f = 6 and s = demo_state
        and v = PNone and val = "PRef 0" and e = 0
        and ?s1.0 = "demo_state\<lparr>heap := no_heap(0 := OList []), heap_next := 1\<rparr>"
        and ?s2.0 = "demo_state\<lparr>heap := no_heap(0 := OList []), heap_next := 1,
                                 trace := [EvPreHook 6 0 (PRef 0)]\<rparr>"]
      g0 g1 g2
    by blast
  have g: "trace (snd (set_base demo_rt 6 0 PNone demo_state)) =
       [EvPreHook 6 0 (PRef 0), EvPostHook 6 0 (PRef 0)]"
    unfolding g3 by (simp add: ds dm store_def)
  show ?thesis using a b c d e f g by simp
qed

text \<open>
  The claim C3 as the specification states it fails on a typed multiple-valued field:
  \<^verbatim>\<open>entity.nums = 0\<close> cleans \<open>0\<close> to \<open>0\<close>, which the typed list then skips as falsy, so
  the stored sequence is empty and not the one-element sequence of the cleaned value.
\<close>

theorem set_multiple_counterexample:
  "multiple (descs demo_state 2)
   \<and> \<not> is_sequence (PInt 0)
   \<and> clean demo_rt 2 (PInt 0) demo_state = (Inr (PInt 0), demo_state)
   \<and> fst (set_base demo_rt 2 0 (PInt 0) demo_state) = Inr ()
   \<and> map_of (ent_fields (snd (set_base demo_rt 2 0 (PInt 0) demo_state)) 0) 2 = Some (PRef 1)
   \<and> heap (snd (set_base demo_rt 2 0 (PInt 0) demo_state)) 1 =
       OTypedList (PClass ''pkg.mod.Num'') []"
proof -
  note ds = demo_states and dm = demo_multiple
  have c: "clean demo_rt 2 (PInt 0) demo_state = (Inr (PInt 0), demo_state)"
    by (simp add: demo_clean_num ds)
  have sv: "set_value demo_rt 2 (PInt 0) demo_state =
       (Inr (PRef (Suc (heap_next demo_state))),
        demo_state\<lparr>heap := (heap demo_state)(heap_next demo_state := OList [PInt 0],
                       Suc (heap_next demo_state) := OTypedList (PClass ''pkg.mod.Num'') []),
          heap_next := Suc (Suc (heap_next demo_state))\<rparr>)"
    by (rule set_value_scalar_typed(1) [OF _ _ _ c _ refl]) (simp_all add: ds dm)
  have sb: "set_base demo_rt 2 0 (PInt 0) demo_state =
      (Inr (), store 2 0 (PRef (Suc (heap_next demo_state)))
         (demo_state\<lparr>heap := (heap demo_state)(heap_next demo_state := OList [PInt 0],
                       Suc (heap_next demo_state) := OTypedList (PClass ''pkg.mod.Num'') []),
          heap_next := Suc (Suc (heap_next demo_state))\<rparr>))"
    by (rule set_base_no_hooks [OF sv]) (simp_all add: ds dm)
  show ?thesis
    unfolding sb by (simp add: c ds dm store_def update_conv)
qed

section \<open>Searching the descriptors: properties\<close>

































end
